theory Spec2Isabelle
  imports Complex_Main "HOL-Library.Sublist"
begin

section \<open>Python strings\<close>

text \<open>
  A Python \<^verbatim>\<open>str\<close> is a sequence of Unicode code points. A code point is modelled as a
  natural number and a string as a list of them, so that the whitespace class of the
  \<^verbatim>\<open>re\<close> module and the non-ASCII characters of the usage message can be written down.
  \<open>lit\<close> turns an ASCII literal of the source into such a list.
\<close>

type_synonym pystr = "nat list"

definition lit :: "string \<Rightarrow> pystr" where
  "lit s = map of_char s"

text \<open>
  \<^verbatim>\<open>str.lower()\<close>. The model lowers the ASCII letters and leaves every other code point
  alone. Python also lowers non-ASCII letters, but the result is only ever searched for
  the ASCII text \<^verbatim>\<open><head\<close>, and the only non-ASCII code points whose lower case has an
  ASCII character are U+0130 (to \<^verbatim>\<open>i\<close> and U+0307) and U+212A (to \<^verbatim>\<open>k\<close>), neither of
  which is a character of that text: the test of the source gives the same answer.
\<close>

definition lower_cp :: "nat \<Rightarrow> nat" where
  "lower_cp c = (if 65 \<le> c \<and> c \<le> 90 then c + 32 else c)"

definition lower :: "pystr \<Rightarrow> pystr" where
  "lower s = map lower_cp s"

text \<open>\<^verbatim>\<open>needle in hay\<close>: the needle occurs in the text as a contiguous run.\<close>

fun contains :: "pystr \<Rightarrow> pystr \<Rightarrow> bool" where
  "contains [] needle = (needle = [])"
| "contains (c # cs) needle = (prefix needle (c # cs) \<or> contains cs needle)"

text \<open>
  \<^verbatim>\<open>str.isspace\<close> on one code point, which is also the class \<^verbatim>\<open>\s\<close> of a \<^verbatim>\<open>str\<close>
  pattern and what \<^verbatim>\<open>str.strip()\<close> removes.
\<close>

definition is_space :: "nat \<Rightarrow> bool" where
  "is_space c = ((9 \<le> c \<and> c \<le> 13) \<or> (28 \<le> c \<and> c \<le> 32) \<or> c = 133 \<or> c = 160
     \<or> c = 5760 \<or> (8192 \<le> c \<and> c \<le> 8202) \<or> c = 8232 \<or> c = 8233 \<or> c = 8239
     \<or> c = 8287 \<or> c = 12288)"

section \<open>The two regular expressions\<close>

text \<open>
  \<^verbatim>\<open>(?i)(<head[^>]*>)\<close> tried at the start of a text: the five characters \<^verbatim>\<open><head\<close> in
  any letter case, then the longest run of characters other than \<^verbatim>\<open>>\<close>, then \<^verbatim>\<open>>\<close>.
  The run is greedy, and giving characters back never helps, because the character
  after a shorter run is not \<^verbatim>\<open>>\<close>; so the match ends at the first \<^verbatim>\<open>>\<close>, and there is
  none when the text has no \<^verbatim>\<open>>\<close> left. The result is the matched text (which is also
  group 1) and the text after it.
\<close>

definition match_open_head :: "pystr \<Rightarrow> (pystr \<times> pystr) option" where
  "match_open_head s =
     (if lower (take 5 s) = lit ''<head'' then
        (case dropWhile (\<lambda>c. c \<noteq> 62) (drop 5 s) of
           [] \<Rightarrow> None
         | g # rest \<Rightarrow> Some (take 5 s @ takeWhile (\<lambda>c. c \<noteq> 62) (drop 5 s) @ [g], rest))
      else None)"

text \<open>
  \<^verbatim>\<open>(?i)(</head\s*>)\<close> tried at the start of a text: \<^verbatim>\<open></head\<close> in any letter case, the
  longest run of whitespace, then \<^verbatim>\<open>>\<close>.
\<close>

definition match_close_head :: "pystr \<Rightarrow> (pystr \<times> pystr) option" where
  "match_close_head s =
     (if lower (take 6 s) = lit ''</head'' then
        (case dropWhile is_space (drop 6 s) of
           [] \<Rightarrow> None
         | g # rest \<Rightarrow>
             if g = 62 then Some (take 6 s @ takeWhile is_space (drop 6 s) @ [g], rest)
             else None)
      else None)"

text \<open>
  The search of \<^verbatim>\<open>re.sub(..., count=1)\<close>: the pattern is tried at each position from
  the left, and the first position where it matches splits the text into what is before
  the match, the match and what is after it.
\<close>

fun find_first :: "(pystr \<Rightarrow> (pystr \<times> pystr) option) \<Rightarrow> pystr \<Rightarrow> (pystr \<times> pystr \<times> pystr) option" where
  "find_first m [] = (case m [] of None \<Rightarrow> None | Some (g, rest) \<Rightarrow> Some ([], g, rest))"
| "find_first m (c # cs) =
     (case m (c # cs) of
        Some (g, rest) \<Rightarrow> Some ([], g, rest)
      | None \<Rightarrow> (case find_first m cs of
                  None \<Rightarrow> None
                | Some (pre, g, rest) \<Rightarrow> Some (c # pre, g, rest)))"

section \<open>Replacement templates\<close>

text \<open>
  \<^verbatim>\<open>re.sub\<close> reads its replacement string as a template (\<^verbatim>\<open>parse_template\<close> of the
  standard library): a backslash and the character after it are one token. Both
  patterns have one group, which is the whole match.
\<close>

datatype tok = Ch nat | Esc nat

fun tokenize :: "pystr \<Rightarrow> tok list option" where
  "tokenize [] = Some []"
| "tokenize [c] = (if c = 92 then None else Some [Ch c])"
| "tokenize (c # d # ds) =
     (if c = 92 then map_option (Cons (Esc d)) (tokenize ds)
      else map_option (Cons (Ch c)) (tokenize (d # ds)))"

datatype item = Lit nat | Group

definition is_digit :: "nat \<Rightarrow> bool" where
  "is_digit c = (48 \<le> c \<and> c \<le> 57)"

definition is_octdigit :: "nat \<Rightarrow> bool" where
  "is_octdigit c = (48 \<le> c \<and> c \<le> 55)"

definition is_ascii_letter :: "nat \<Rightarrow> bool" where
  "is_ascii_letter c = ((65 \<le> c \<and> c \<le> 90) \<or> (97 \<le> c \<and> c \<le> 122))"

text \<open>The table \<^verbatim>\<open>ESCAPES\<close>: \<^verbatim>\<open>\a \b \f \n \r \t \v \\\<close>.\<close>

definition escape_of :: "nat \<Rightarrow> nat option" where
  "escape_of c =
     (if c = 97 then Some 7 else if c = 98 then Some 8 else if c = 102 then Some 12
      else if c = 110 then Some 10 else if c = 114 then Some 13 else if c = 116 then Some 9
      else if c = 118 then Some 11 else if c = 92 then Some 92 else None)"

fun tok_digit :: "tok \<Rightarrow> bool" where
  "tok_digit (Ch c) = is_digit c"
| "tok_digit (Esc c) = False"

fun tok_octdigit :: "tok \<Rightarrow> bool" where
  "tok_octdigit (Ch c) = is_octdigit c"
| "tok_octdigit (Esc c) = False"

fun tok_val :: "tok \<Rightarrow> nat" where
  "tok_val (Ch c) = c - 48"
| "tok_val (Esc c) = 0"

text \<open>The decimal number a group name of digits stands for.\<close>

definition name_index :: "tok list \<Rightarrow> nat" where
  "name_index name = foldl (\<lambda>n t. 10 * n + tok_val t) 0 name"

text \<open>
  What follows \<^verbatim>\<open>\g\<close>: \<^verbatim>\<open><\<close>, a name and \<^verbatim>\<open>>\<close>. The result is what is left of the
  template after the \<^verbatim>\<open>>\<close>; \<open>None\<close> is the exception raised (\<^verbatim>\<open>re.error\<close>, or
  \<^verbatim>\<open>IndexError\<close> for a name that is an identifier: the patterns name no group). A
  name made of ASCII digits is a group number, and the patterns have group 0 and group 1
  only. (Up to Python 3.11 a few other spellings of a number, such as \<^verbatim>\<open>+1\<close>, were still
  read as numbers, with a deprecation warning.)
\<close>

definition group_ref :: "tok list \<Rightarrow> tok list option" where
  "group_ref ts =
     (case ts of
        [] \<Rightarrow> None
      | t # ts' \<Rightarrow>
          if t \<noteq> Ch 60 then None
          else
            (case dropWhile (\<lambda>t. t \<noteq> Ch 62) ts' of
               [] \<Rightarrow> None
             | gt # ts'' \<Rightarrow>
                 (let name = takeWhile (\<lambda>t. t \<noteq> Ch 62) ts' in
                  if name \<noteq> [] \<and> list_all tok_digit name \<and> name_index name \<le> 1
                  then Some ts'' else None)))"

text \<open>
  What follows \<^verbatim>\<open>\0\<close>: up to two octal digits. The result is the character and what is
  left of the template.
\<close>

definition octal_zero :: "tok list \<Rightarrow> nat \<times> tok list" where
  "octal_zero ts =
     (case ts of
        [] \<Rightarrow> (0, ts)
      | d # ts' \<Rightarrow>
          if tok_octdigit d then
            (case ts' of
               [] \<Rightarrow> (tok_val d, ts')
             | e # ts'' \<Rightarrow>
                 if tok_octdigit e then ((8 * tok_val d + tok_val e) mod 256, ts'')
                 else (tok_val d, ts'))
          else (0, ts))"

text \<open>
  What follows a backslash and a digit \<open>c\<close> from 1 to 9: with a second digit it is an
  octal escape when there are three octal digits, and a reference to a group from 10 on
  (which the patterns do not have) otherwise; alone it is a reference to group \<open>c\<close>.
\<close>

definition digit_escape :: "nat \<Rightarrow> tok list \<Rightarrow> (item \<times> tok list) option" where
  "digit_escape c ts =
     (case ts of
        [] \<Rightarrow> if c = 49 then Some (Group, ts) else None
      | d # ts' \<Rightarrow>
          if tok_digit d then
            (case ts' of
               [] \<Rightarrow> None
             | e # ts'' \<Rightarrow>
                 if is_octdigit c \<and> tok_octdigit d \<and> tok_octdigit e then
                   (if 64 * (c - 48) + 8 * tok_val d + tok_val e > 255 then None
                    else Some (Lit (64 * (c - 48) + 8 * tok_val d + tok_val e), ts''))
                 else None)
          else if c = 49 then Some (Group, ts) else None)"

text \<open>
  One escape of the template: the token \<^verbatim>\<open>\c\<close> with the tokens after it. The result is
  the items it stands for and what is left of the template. An escape that is not in the
  table raises when \<open>c\<close> is an ASCII letter and stands for itself, backslash included,
  otherwise.
\<close>

definition escape_step :: "nat \<Rightarrow> tok list \<Rightarrow> (item list \<times> tok list) option" where
  "escape_step c ts =
     (if c = 103 then map_option (\<lambda>rest. ([Group], rest)) (group_ref ts)
      else if c = 48 then Some ([Lit (fst (octal_zero ts))], snd (octal_zero ts))
      else if is_digit c then map_option (\<lambda>(i, rest). ([i], rest)) (digit_escape c ts)
      else
        (case escape_of c of
           Some v \<Rightarrow> Some ([Lit v], ts)
         | None \<Rightarrow> if is_ascii_letter c then None else Some ([Lit 92, Lit c], ts)))"

text \<open>
  The template parser, for a pattern with one group and no group name. \<open>None\<close> is the
  exception it raises.
\<close>

function parse_template :: "tok list \<Rightarrow> item list option" where
  "parse_template [] = Some []"
| "parse_template (Ch c # ts) = map_option (Cons (Lit c)) (parse_template ts)"
| "parse_template (Esc c # ts) =
     (case escape_step c ts of
        None \<Rightarrow> None
      | Some (its, rest) \<Rightarrow> map_option (append its) (parse_template rest))"
  by pat_completeness auto
termination
proof (relation "measure length", goal_cases)
  case 1
  show ?case by simp
next
  case (2 c ts)
  show ?case by simp
next
  case (3 c ts x its rest)
  have drop_le: "length (dropWhile (\<lambda>t. t \<noteq> Ch 62) us) \<le> length us" for us :: "tok list"
    by (rule length_dropWhile_le)
  have g: "length r \<le> length ts" if "group_ref ts = Some r" for r
  proof -
    from that obtain t ts' where ts: "ts = t # ts'"
      by (cases ts) (auto simp: group_ref_def)
    from that ts obtain gt where "dropWhile (\<lambda>t. t \<noteq> Ch 62) ts' = gt # r"
      by (auto simp: group_ref_def Let_def split: if_splits list.splits)
    with drop_le [of ts'] have "length (gt # r) \<le> length ts'"
      by simp
    with ts show ?thesis by simp
  qed
  have z: "length (snd (octal_zero ts)) \<le> length ts"
    by (auto simp: octal_zero_def split: list.splits)
  have d: "length r \<le> length ts" if "digit_escape c ts = Some (i, r)" for i r
    using that by (auto simp: digit_escape_def split: list.splits if_splits)
  from 3 have "escape_step c ts = Some (its, rest)"
    by simp
  then have "length rest \<le> length ts"
    using z by (auto simp: escape_step_def split: if_splits option.splits dest: g d)
  then show ?case by simp
qed

fun expand_item :: "pystr \<Rightarrow> item \<Rightarrow> pystr" where
  "expand_item g (Lit c) = [c]"
| "expand_item g Group = g"

definition expand :: "item list \<Rightarrow> pystr \<Rightarrow> pystr" where
  "expand items g = concat (map (expand_item g) items)"

datatype exn =
    ValueError pystr
  | FileNotFoundError pystr
  | HtmlToPdfError pystr exn
  | ReError
  | Raised pystr

text \<open>
  \<^verbatim>\<open>re.sub(pattern, repl, text, count=1)\<close> for a replacement that holds a backslash (both
  calls of the source do: \<^verbatim>\<open>\1\<close>). The template is compiled before the search, so a bad
  template raises whether or not the pattern matches. Without a match the text comes
  back as it is.
\<close>

definition re_sub_first ::
    "(pystr \<Rightarrow> (pystr \<times> pystr) option) \<Rightarrow> pystr \<Rightarrow> pystr \<Rightarrow> exn + pystr" where
  "re_sub_first m repl s =
     (case tokenize repl of
        None \<Rightarrow> Inl ReError
      | Some ts \<Rightarrow>
          (case parse_template ts of
             None \<Rightarrow> Inl ReError
           | Some items \<Rightarrow>
               (case find_first m s of
                  None \<Rightarrow> Inr s
                | Some (pre, g, rest) \<Rightarrow> Inr (pre @ expand items g @ rest))))"

section \<open>Preparing the HTML\<close>

definition base_tag :: "pystr \<Rightarrow> pystr" where
  \<open>base_tag base_href = lit ''<base href="'' @ base_href @ lit ''">''\<close>

definition inject_base_tag :: "pystr \<Rightarrow> pystr \<Rightarrow> exn + pystr" where
  "inject_base_tag html base_href =
     (if contains (lower html) (lit ''<head'') then
        re_sub_first match_open_head ([92, 49, 92, 110, 32, 32] @ base_tag base_href) html
      else
        Inr (lit ''<!doctype html><html><head>'' @ base_tag base_href
             @ lit ''</head><body>'' @ html @ lit ''</body></html>''))"

definition style_tag :: "pystr \<Rightarrow> pystr" where
  "style_tag css_text = lit ''<style>\<newline>'' @ css_text @ lit ''\<newline></style>''"

definition wrap_with_css :: "pystr \<Rightarrow> pystr \<Rightarrow> exn + pystr" where
  "wrap_with_css html css_text =
     (if contains (lower html) (lit ''<head'') then
        re_sub_first match_close_head (style_tag css_text @ [92, 110, 92, 49]) html
      else
        Inr (lit ''<!doctype html><html><head>'' @ style_tag css_text
             @ lit ''</head><body>'' @ html @ lit ''</body></html>''))"

text \<open>
  For stating what the two functions do: the number of positions of a text at which a
  pattern matches, the number of positions at which a given text occurs, and
  \<^verbatim>\<open>_inject_base_tag\<close> applied to its own result.
\<close>

fun count_matches :: "(pystr \<Rightarrow> (pystr \<times> pystr) option) \<Rightarrow> pystr \<Rightarrow> nat" where
  "count_matches m [] = (if m [] = None then 0 else 1)"
| "count_matches m (c # cs) = (if m (c # cs) = None then 0 else 1) + count_matches m cs"

fun occurrences :: "pystr \<Rightarrow> pystr \<Rightarrow> nat" where
  "occurrences needle [] = (if needle = [] then 1 else 0)"
| "occurrences needle (c # cs) = (if prefix needle (c # cs) then 1 else 0) + occurrences needle cs"

definition inject_twice :: "pystr \<Rightarrow> pystr \<Rightarrow> exn + pystr" where
  "inject_twice html base_href =
     (case inject_base_tag html base_href of
        Inl e \<Rightarrow> Inl e
      | Inr once \<Rightarrow> inject_base_tag once base_href)"

section \<open>Options\<close>

text \<open>
  A path is the text of the path. \<^verbatim>\<open>Path.resolve()\<close> depends on the working directory
  and on symbolic links and comes from the environment; \<open>parent\<close>, \<open>joinpath\<close> and
  \<open>as_uri\<close> are the operations of \<^verbatim>\<open>pathlib\<close> on an absolute POSIX path, which is
  what the source applies them to.
\<close>

type_synonym path = pystr

datatype wait_cond = Load | DomContentLoaded | NetworkIdle

datatype media = Screen | Print

record PdfOptions =
  format :: "pystr option"
  width :: "pystr option"
  height :: "pystr option"
  margin_top :: pystr
  margin_right :: pystr
  margin_bottom :: pystr
  margin_left :: pystr
  print_background :: bool
  prefer_css_page_size :: bool
  scale :: real
  display_header_footer :: bool
  header_template :: pystr
  footer_template :: pystr

record RenderOptions =
  timeout_ms :: int
  wait_until :: wait_cond
  emulate_media :: media
  allow_network :: bool
  extra_css_path :: "path option"
  add_base_tag :: bool

definition default_pdf :: PdfOptions where
  "default_pdf =
     \<lparr>format = Some (lit ''A4''), width = None, height = None,
      margin_top = lit ''16mm'', margin_right = lit ''14mm'',
      margin_bottom = lit ''16mm'', margin_left = lit ''14mm'',
      print_background = True, prefer_css_page_size = True, scale = 1,
      display_header_footer = False, header_template = [], footer_template = []\<rparr>"

definition default_render :: RenderOptions where
  "default_render =
     \<lparr>timeout_ms = 60000, wait_until = NetworkIdle, emulate_media = Print,
      allow_network = True, extra_css_path = None, add_base_tag = True\<rparr>"

section \<open>The environment and its effects\<close>

text \<open>
  What the file system and the browser answer is the environment's. A call of the
  environment that can raise has an outcome: \<open>None\<close> when it returns, \<open>Some msg\<close> when it
  raises an exception whose text is \<open>msg\<close>. Each browser call is made at most once in a
  conversion, so one outcome each is enough. \<open>pw_requests\<close> are the URLs the page asks for
  while it is loaded; which they are depends on the document and is the environment's.
\<close>

record env =
  fs_cwd :: path
  fs_resolve :: "path \<Rightarrow> path"
  fs_exists :: "path \<Rightarrow> bool"
  fs_read_text :: "path \<Rightarrow> pystr + pystr"
  fs_mkdir :: "path \<Rightarrow> pystr option"
  fs_mkdtemp :: "pystr + path"
  fs_write_text :: "path \<Rightarrow> pystr \<Rightarrow> pystr option"
  fs_cleanup :: "pystr option"
  uri_quote :: "pystr \<Rightarrow> pystr"
  pw_start :: "pystr option"
  pw_launch :: "pystr option"
  pw_new_context :: "pystr option"
  pw_new_page :: "pystr option"
  pw_route :: "pystr option"
  pw_emulate_media :: "pystr option"
  pw_goto :: "pystr option"
  pw_requests :: "pystr list"
  pw_evaluate :: "pystr option"
  pw_pdf :: "pystr option"
  pw_context_close :: "pystr option"
  pw_browser_close :: "pystr option"
  pw_stop :: "pystr option"

datatype kwval = KStr pystr | KBool bool | KFloat real | KNone | KDict "(string \<times> kwval) list"

text \<open>What a route handler does with a request: \<^verbatim>\<open>route.continue_()\<close> or \<^verbatim>\<open>route.abort()\<close>.\<close>

datatype route_action = Continue | Abort

text \<open>
  The calls a conversion makes on its environment, in the order it makes them, and with
  them the requests of the page, each with what became of it.
\<close>

datatype event =
    Resolve path
  | Mkdir path
  | Exists path
  | ReadText path
  | Cwd
  | MkTemp
  | WriteText path pystr
  | Cleanup
  | PlaywrightStart
  | Launch
  | NewContext
  | NewPage
  | Route
  | EmulateMedia media
  | Goto pystr wait_cond int
  | Request pystr route_action
  | Evaluate
  | Pdf "(string \<times> kwval) list"
  | ContextClose
  | BrowserClose
  | PlaywrightStop

text \<open>
  A computation gives a value or raises, and makes calls on the way: its result and the
  list of its calls.
\<close>

type_synonym 'a io = "(exn + 'a) \<times> event list"

definition ret :: "'a \<Rightarrow> 'a io" where
  "ret x = (Inr x, [])"

definition throw :: "exn \<Rightarrow> 'a io" where
  "throw e = (Inl e, [])"

definition bind :: "'a io \<Rightarrow> ('a \<Rightarrow> 'b io) \<Rightarrow> 'b io" where
  "bind m f =
     (case fst m of
        Inl e \<Rightarrow> (Inl e, snd m)
      | Inr x \<Rightarrow> (fst (f x), snd m @ snd (f x)))"

text \<open>A call that returns nothing: it is recorded, and raises what the environment says.\<close>

definition call :: "event \<Rightarrow> pystr option \<Rightarrow> unit io" where
  "call ev outcome =
     (case outcome of None \<Rightarrow> (Inr (), [ev]) | Some msg \<Rightarrow> (Inl (Raised msg), [ev]))"

text \<open>A call that returns a value.\<close>

definition call_val :: "event \<Rightarrow> pystr + 'a \<Rightarrow> 'a io" where
  "call_val ev outcome =
     (case outcome of Inl msg \<Rightarrow> (Inl (Raised msg), [ev]) | Inr v \<Rightarrow> (Inr v, [ev]))"

text \<open>A pure step that can raise.\<close>

definition lift :: "exn + 'a \<Rightarrow> 'a io" where
  "lift r = (r, [])"

text \<open>
  \<^verbatim>\<open>try: body finally: fin\<close>, which is also what leaving a \<^verbatim>\<open>with\<close> block is: \<open>fin\<close>
  runs however the body ends; when it raises, its exception is the one that goes on, and
  otherwise the body's result stands.
\<close>

definition finally_do :: "'a io \<Rightarrow> unit io \<Rightarrow> 'a io" where
  "finally_do body fin =
     (case fst fin of
        Inl e \<Rightarrow> (Inl e, snd body @ snd fin)
      | Inr u \<Rightarrow> (fst body, snd body @ snd fin))"

text \<open>\<^verbatim>\<open>try: body except Exception as e: handler\<close>.\<close>

definition except_do :: "'a io \<Rightarrow> (exn \<Rightarrow> 'a io) \<Rightarrow> 'a io" where
  "except_do body handler =
     (case fst body of
        Inl e \<Rightarrow> (fst (handler e), snd body @ snd (handler e))
      | Inr x \<Rightarrow> body)"

text \<open>\<^verbatim>\<open>str(e)\<close>. (The text of an \<^verbatim>\<open>re.error\<close> is not modelled; nothing reads it.)\<close>

fun exn_str :: "exn \<Rightarrow> pystr" where
  "exn_str (ValueError m) = m"
| "exn_str (FileNotFoundError m) = m"
| "exn_str (HtmlToPdfError m c) = m"
| "exn_str ReError = lit ''re.error''"
| "exn_str (Raised m) = m"

fun is_HtmlToPdfError :: "exn \<Rightarrow> bool" where
  "is_HtmlToPdfError (HtmlToPdfError m c) = True"
| "is_HtmlToPdfError e = False"

section \<open>Paths\<close>

definition parent :: "path \<Rightarrow> path" where
  "parent p =
     (let q = butlast (rev (dropWhile (\<lambda>c. c \<noteq> 47) (rev p)))
      in if q = [] then [47] else q)"

definition joinpath :: "path \<Rightarrow> pystr \<Rightarrow> path" where
  "joinpath p name = (if p = [47] then p @ name else p @ [47] @ name)"

definition as_uri :: "env \<Rightarrow> path \<Rightarrow> pystr" where
  "as_uri env p = lit ''file://'' @ uri_quote env p"

section \<open>The conversion\<close>

text \<open>
  Lines 93 to 101: the HTML text and the base directory. A \<^verbatim>\<open>Path\<close> is never false, so
  \<^verbatim>\<open>base_dir or ...\<close> takes the given directory whenever there is one.
\<close>

definition load_html ::
    "env \<Rightarrow> pystr option \<Rightarrow> path option \<Rightarrow> path option \<Rightarrow> (pystr \<times> path) io" where
  "load_html env html html_path base_dir =
     (case html_path of
        Some hp \<Rightarrow>
          bind (call_val (Resolve hp) (Inr (fs_resolve env hp))) (\<lambda>hp'.
          bind (call_val (Exists hp') (Inr (fs_exists env hp'))) (\<lambda>found.
            if \<not> found then throw (FileNotFoundError (lit ''HTML topilmadi: '' @ hp'))
            else
              bind (call_val (ReadText hp') (fs_read_text env hp')) (\<lambda>html_text.
              ret (html_text, (case base_dir of Some b \<Rightarrow> b | None \<Rightarrow> parent hp')))))
      | None \<Rightarrow>
          (case base_dir of
             Some b \<Rightarrow> ret ((case html of Some t \<Rightarrow> t | None \<Rightarrow> []), b)
           | None \<Rightarrow>
               bind (call_val Cwd (Inr (fs_cwd env))) (\<lambda>d.
               ret ((case html of Some t \<Rightarrow> t | None \<Rightarrow> []), d))))"

text \<open>Lines 104 to 108: the extra style sheet.\<close>

definition add_css :: "env \<Rightarrow> RenderOptions \<Rightarrow> pystr \<Rightarrow> pystr io" where
  "add_css env render html_text =
     (case extra_css_path render of
        None \<Rightarrow> ret html_text
      | Some cp \<Rightarrow>
          bind (call_val (Resolve cp) (Inr (fs_resolve env cp))) (\<lambda>css_path.
          bind (call_val (Exists css_path) (Inr (fs_exists env css_path))) (\<lambda>found.
            if \<not> found then throw (FileNotFoundError (lit ''CSS topilmadi: '' @ css_path))
            else
              bind (call_val (ReadText css_path) (fs_read_text env css_path)) (\<lambda>css_text.
              lift (wrap_with_css html_text css_text)))))"

text \<open>Lines 111 to 113: the base tag.\<close>

definition add_base :: "env \<Rightarrow> RenderOptions \<Rightarrow> path \<Rightarrow> pystr \<Rightarrow> pystr io" where
  "add_base env render base_dir html_text =
     (if add_base_tag render then
        bind (call_val (Resolve base_dir) (Inr (fs_resolve env base_dir))) (\<lambda>d.
        lift (inject_base_tag html_text (as_uri env d @ lit ''/'')))
      else ret html_text)"

text \<open>Lines 153 to 177: the arguments of \<^verbatim>\<open>page.pdf\<close>, a dictionary in the order it is filled.\<close>

definition truthy :: "pystr option \<Rightarrow> bool" where
  "truthy v = (case v of None \<Rightarrow> False | Some t \<Rightarrow> t \<noteq> [])"

definition opt_val :: "pystr option \<Rightarrow> kwval" where
  "opt_val v = (case v of None \<Rightarrow> KNone | Some t \<Rightarrow> KStr t)"

definition pdf_kwargs :: "path \<Rightarrow> PdfOptions \<Rightarrow> (string \<times> kwval) list" where
  "pdf_kwargs output_pdf_path pdf =
     [(''path'', KStr output_pdf_path),
      (''print_background'', KBool (print_background pdf)),
      (''prefer_css_page_size'', KBool (prefer_css_page_size pdf)),
      (''scale'', KFloat (scale pdf)),
      (''margin'', KDict [(''top'', KStr (margin_top pdf)), (''right'', KStr (margin_right pdf)),
                          (''bottom'', KStr (margin_bottom pdf)), (''left'', KStr (margin_left pdf))])]
     @ (if truthy (width pdf) \<and> truthy (height pdf)
        then [(''width'', opt_val (width pdf)), (''height'', opt_val (height pdf))]
        else [(''format'', opt_val (format pdf))])
     @ (if display_header_footer pdf
        then [(''display_header_footer'', KBool True),
              (''header_template'', KStr (header_template pdf)),
              (''footer_template'', KStr (footer_template pdf))]
        else [])"

text \<open>Lines 127 to 134: the handler installed for every request when the network is off.\<close>

definition route_handler :: "pystr \<Rightarrow> route_action" where
  "route_handler url = (if prefix (lit ''file://'') url then Continue else Abort)"

text \<open>
  The handler on the page when the \<^verbatim>\<open>try\<close> statement is reached: \<^verbatim>\<open>page.route\<close> has put
  \<^verbatim>\<open>route_handler\<close> there for the pattern \<^verbatim>\<open>**/*\<close>, which is every URL, when
  \<^verbatim>\<open>allow_network\<close> is false, and the page has no handler otherwise. A request is
  answered by the handler of the page, and goes on when there is none.
\<close>

definition installed_handler :: "RenderOptions \<Rightarrow> (pystr \<Rightarrow> route_action) option" where
  "installed_handler render = (if \<not> allow_network render then Some route_handler else None)"

definition answer :: "(pystr \<Rightarrow> route_action) option \<Rightarrow> pystr \<Rightarrow> route_action" where
  "answer installed url = (case installed of None \<Rightarrow> Continue | Some handler \<Rightarrow> handler url)"

text \<open>
  Lines 140 to 144: \<^verbatim>\<open>page.goto\<close>. The request for the document itself is answered like
  any other, and Playwright makes \<^verbatim>\<open>page.goto\<close> raise when that request is aborted.
  While the page loads, each of its further requests is answered; an aborted one is a
  resource the page goes without. Whether the call then returns or raises is the
  environment's.
\<close>

definition navigate :: "env \<Rightarrow> RenderOptions \<Rightarrow> pystr \<Rightarrow> unit io" where
  "navigate env render url =
     ((case answer (installed_handler render) url of
         Abort \<Rightarrow> Inl (Raised (lit ''net::ERR_FAILED''))
       | Continue \<Rightarrow> (case pw_goto env of None \<Rightarrow> Inr () | Some msg \<Rightarrow> Inl (Raised msg))),
      Goto url (wait_until render) (timeout_ms render)
      # map (\<lambda>u. Request u (answer (installed_handler render) u)) (pw_requests env))"


text \<open>The calls made on the page, and the requests of the page.\<close>

fun page_event :: "event \<Rightarrow> bool" where
  "page_event Route = True"
| "page_event (EmulateMedia m) = True"
| "page_event (Goto u w t) = True"
| "page_event (Request u a) = True"
| "page_event Evaluate = True"
| "page_event (Pdf kw) = True"
| "page_event e = False"

text \<open>Lines 139 to 185: the \<^verbatim>\<open>try\<close> statement with its handler and its \<^verbatim>\<open>finally\<close>.\<close>

definition try_block :: "env \<Rightarrow> path \<Rightarrow> path \<Rightarrow> PdfOptions \<Rightarrow> RenderOptions \<Rightarrow> unit io" where
  "try_block env output_pdf_path tmp_html pdf render =
     finally_do
       (except_do
          (bind (navigate env render (as_uri env tmp_html)) (\<lambda>u.
           bind (except_do (call Evaluate (pw_evaluate env)) (\<lambda>e. ret ())) (\<lambda>u.
           call (Pdf (pdf_kwargs output_pdf_path pdf)) (pw_pdf env))))
          (\<lambda>e. throw (HtmlToPdfError (lit ''PDF render xatosi: '' @ exn_str e) e)))
       (bind (call ContextClose (pw_context_close env)) (\<lambda>u.
        call BrowserClose (pw_browser_close env)))"

text \<open>Lines 121 to 185: the body of the \<^verbatim>\<open>async with\<close> block.\<close>

definition render_page :: "env \<Rightarrow> path \<Rightarrow> path \<Rightarrow> PdfOptions \<Rightarrow> RenderOptions \<Rightarrow> unit io" where
  "render_page env output_pdf_path tmp_html pdf render =
     bind (call Launch (pw_launch env)) (\<lambda>u.
     bind (call NewContext (pw_new_context env)) (\<lambda>u.
     bind (call NewPage (pw_new_page env)) (\<lambda>u.
     bind (if \<not> allow_network render then call Route (pw_route env) else ret ()) (\<lambda>u.
     bind (call (EmulateMedia (emulate_media render)) (pw_emulate_media env)) (\<lambda>u.
     try_block env output_pdf_path tmp_html pdf render)))))"

text \<open>Lines 116 to 185: the temporary directory and the Playwright session around it.\<close>

definition render_in_tmp :: "env \<Rightarrow> path \<Rightarrow> pystr \<Rightarrow> PdfOptions \<Rightarrow> RenderOptions \<Rightarrow> unit io" where
  "render_in_tmp env output_pdf_path html_text pdf render =
     bind (call_val MkTemp (fs_mkdtemp env)) (\<lambda>tmp.
     finally_do
       (bind (call (WriteText (joinpath tmp (lit ''index.html'')) html_text)
                (fs_write_text env (joinpath tmp (lit ''index.html'')) html_text)) (\<lambda>u.
        bind (call PlaywrightStart (pw_start env)) (\<lambda>u.
        finally_do
          (render_page env output_pdf_path (joinpath tmp (lit ''index.html'')) pdf render)
          (call PlaywrightStop (pw_stop env)))))
       (call Cleanup (fs_cleanup env)))"

definition html_to_pdf ::
    "env \<Rightarrow> pystr option \<Rightarrow> path option \<Rightarrow> path \<Rightarrow> path option \<Rightarrow> PdfOptions \<Rightarrow> RenderOptions
     \<Rightarrow> path io" where
  "html_to_pdf env html html_path output_pdf_path base_dir pdf render =
     (if (html = None) = (html_path = None) then
        throw (ValueError (lit ''Faqat bittasini bering: html (string) yoki html_path (file).''))
      else
        bind (call_val (Resolve output_pdf_path) (Inr (fs_resolve env output_pdf_path))) (\<lambda>out.
        bind (call (Mkdir (parent out)) (fs_mkdir env (parent out))) (\<lambda>u.
        bind (load_html env html html_path base_dir) (\<lambda>(html_text, base_dir').
        bind (add_css env render html_text) (\<lambda>html_text'.
        bind (add_base env render base_dir' html_text') (\<lambda>html_text''.
        bind (render_in_tmp env out html_text'' pdf render) (\<lambda>u.
        ret out)))))))"

section \<open>The command line\<close>

definition default_footer :: pystr where
  \<open>default_footer = lit (''\<newline>    <div style="width:100%; font-size:9px; color:#666; padding:0 10mm;">''
     @ ''\<newline>      <div style="float:left;">Generated</div>''
     @ ''\<newline>      <div style="float:right;">''
     @ ''\<newline>        <span class="pageNumber"></span> / <span class="totalPages"></span>''
     @ ''\<newline>      </div>''
     @ ''\<newline>    </div>''
     @ ''\<newline>    '')\<close>

text \<open>What \<^verbatim>\<open>parse_args\<close> returns.\<close>

record args =
  arg_input :: pystr
  arg_output :: pystr
  arg_base_dir :: "pystr option"
  arg_css :: "pystr option"
  arg_no_network :: bool
  arg_timeout :: int
  arg_format :: pystr
  arg_margin :: pystr
  arg_header_footer :: bool
  arg_wait_until :: wait_cond

text \<open>\<^verbatim>\<open>str.split(sep)\<close> for a separator of one character, and \<^verbatim>\<open>str.strip()\<close>.\<close>

fun split_on :: "nat \<Rightarrow> pystr \<Rightarrow> pystr list" where
  "split_on sep [] = [[]]"
| "split_on sep (c # cs) =
     (if c = sep then [] # split_on sep cs
      else (case split_on sep cs of [] \<Rightarrow> [[c]] | w # ws \<Rightarrow> (c # w) # ws))"

definition strip :: "pystr \<Rightarrow> pystr" where
  "strip s = rev (dropWhile is_space (rev (dropWhile is_space s)))"

text \<open>
  Line 229: the four names are bound to a list that must have four elements; any other
  length raises \<^verbatim>\<open>ValueError\<close>, which is \<open>None\<close> here.
\<close>

definition parse_margin :: "pystr \<Rightarrow> (pystr \<times> pystr \<times> pystr \<times> pystr) option" where
  "parse_margin m =
     (case map strip (split_on 44 m) of
        [top', right', bottom', left'] \<Rightarrow> Some (top', right', bottom', left')
      | _ \<Rightarrow> None)"

definition usage_message :: pystr where
  "usage_message = lit ''Margin formati noto'' @ [8217] @ lit ''g'' @ [8217]
     @ lit ''ri. Masalan: 16mm,14mm,16mm,14mm''"

text \<open>Lines 234 to 244.\<close>

definition pdf_opts :: "args \<Rightarrow> pystr \<Rightarrow> pystr \<Rightarrow> pystr \<Rightarrow> pystr \<Rightarrow> PdfOptions" where
  "pdf_opts a top' right' bottom' left' =
     (let p = default_pdf\<lparr>format := Some (arg_format a), margin_top := top',
                margin_right := right', margin_bottom := bottom', margin_left := left'\<rparr>
      in if arg_header_footer a
         then p\<lparr>display_header_footer := True, footer_template := default_footer\<rparr>
         else p)"

text \<open>Lines 225 and 226: \<^verbatim>\<open>Path(x) if x else None\<close>; an empty string is false.\<close>

definition opt_path :: "pystr option \<Rightarrow> path option" where
  "opt_path v = (case v of None \<Rightarrow> None | Some x \<Rightarrow> if x = [] then None else Some x)"

text \<open>Lines 246 to 251.\<close>

definition render_opts :: "args \<Rightarrow> RenderOptions" where
  "render_opts a =
     default_render\<lparr>timeout_ms := arg_timeout a, wait_until := arg_wait_until a,
       allow_network := \<not> arg_no_network a,
       extra_css_path := opt_path (arg_css a)\<rparr>"

text \<open>
  How \<^verbatim>\<open>main\<close> ends: it returns, the process exits through \<^verbatim>\<open>sys.exit\<close>, or an
  exception leaves it. With that come the lines printed, the lines logged and the calls
  made on the environment.
\<close>

datatype ending = Returned | SystemExit int | Uncaught exn

record run =
  run_end :: ending
  run_printed :: "pystr list"
  run_logged :: "pystr list"
  run_calls :: "event list"

text \<open>
  Lines 253 to 263: \<^verbatim>\<open>runner\<close> awaits the conversion and logs the path it returns; an
  exception of the conversion leaves \<^verbatim>\<open>main\<close>.
\<close>

definition runner :: "path io \<Rightarrow> run" where
  "runner r =
     (case fst r of
        Inl e \<Rightarrow>
          \<lparr>run_end = Uncaught e, run_printed = [], run_logged = [], run_calls = snd r\<rparr>
      | Inr result \<Rightarrow>
          \<lparr>run_end = Returned, run_printed = [], run_logged = [lit ''OK: '' @ result],
           run_calls = snd r\<rparr>)"

definition main :: "env \<Rightarrow> args \<Rightarrow> run" where
  "main env a =
     (case parse_margin (arg_margin a) of
        None \<Rightarrow>
          \<lparr>run_end = SystemExit 2, run_printed = [usage_message], run_logged = [],
           run_calls = []\<rparr>
      | Some (top', right', bottom', left') \<Rightarrow>
          runner (html_to_pdf env None (Some (arg_input a)) (arg_output a)
                    (opt_path (arg_base_dir a))
                    (pdf_opts a top' right' bottom' left') (render_opts a)))"

text \<open>An environment in which everything is there and every call returns.\<close>

definition demo_env :: env where
  "demo_env =
     \<lparr>fs_cwd = lit ''/work'',
      fs_resolve = (\<lambda>p. if prefix [47] p then p else lit ''/work/'' @ p),
      fs_exists = (\<lambda>p. p = lit ''/work/page.html'' \<or> p = lit ''/work/extra.css''),
      fs_read_text = (\<lambda>p. if p = lit ''/work/page.html'' then Inr (lit ''<html><head></head></html>'')
                           else if p = lit ''/work/extra.css'' then Inr (lit ''p{}'')
                           else Inl (lit ''No such file'')),
      fs_mkdir = (\<lambda>p. None),
      fs_mkdtemp = Inr (lit ''/tmp/html2pdf_x''),
      fs_write_text = (\<lambda>p t. None),
      fs_cleanup = None,
      uri_quote = (\<lambda>p. p),
      pw_start = None, pw_launch = None, pw_new_context = None, pw_new_page = None,
      pw_route = None, pw_emulate_media = None, pw_goto = None, pw_requests = [],
      pw_evaluate = None,
      pw_pdf = None, pw_context_close = None, pw_browser_close = None, pw_stop = None\<rparr>"

text \<open>The arguments of a run with every default, on \<^verbatim>\<open>page.html\<close>.\<close>

definition demo_args :: args where
  "demo_args =
     \<lparr>arg_input = lit ''page.html'', arg_output = lit ''out.pdf'', arg_base_dir = None,
      arg_css = None, arg_no_network = False, arg_timeout = 60000, arg_format = lit ''A4'',
      arg_margin = lit ''16mm,14mm,16mm,14mm'', arg_header_footer = False,
      arg_wait_until = NetworkIdle\<rparr>"

section \<open>Sequencing\<close>

lemma bind_throw [simp]: "bind (throw e) f = throw e"
  by (simp add: bind_def throw_def)

lemma bind_ret [simp]: "bind (ret x) f = f x"
  by (simp add: bind_def ret_def)

lemma bind_Inl [simp]: "bind (Inl e, tr) f = (Inl e, tr)"
  by (simp add: bind_def)

lemma bind_Inr [simp]: "bind (Inr x, tr) f = (fst (f x), tr @ snd (f x))"
  by (simp add: bind_def)

lemma bind_call_val_Inr [simp]:
  "bind (call_val ev (Inr v)) f = (fst (f v), ev # snd (f v))"
  by (simp add: bind_def call_val_def)

lemma bind_call_None [simp]:
  "bind (call ev None) f = (fst (f ()), ev # snd (f ()))"
  by (simp add: bind_def call_def)

lemma bind_call_Some [simp]:
  "bind (call ev (Some msg)) f = (Inl (Raised msg), [ev])"
  by (simp add: bind_def call_def)

text \<open>
  The document that \<^verbatim>\<open>page.goto\<close> opens is a local file, so its own request goes on
  whether or not the handler is installed.
\<close>

lemma answer_file [simp]: "answer (installed_handler render) (lit ''file://'' @ x) = Continue"
  by (simp add: answer_def installed_handler_def route_handler_def)

lemma answer_as_uri [simp]: "answer (installed_handler render) (as_uri env p) = Continue"
  by (simp add: as_uri_def)

section \<open>Validation of the input\<close>

text \<open>
  C5: when both or neither of the inline HTML text and the HTML file path are given,
  the conversion raises the input-configuration error (\<^verbatim>\<open>ValueError\<close>) and has made no
  call on the file system or the browser: its list of calls is empty.
\<close>

theorem invalid_config_no_io:
  "(html = None) = (html_path = None) \<Longrightarrow>
   html_to_pdf env html html_path output_pdf_path base_dir pdf render =
     (Inl (ValueError (lit ''Faqat bittasini bering: html (string) yoki html_path (file).'')), [])"
  by (simp add: html_to_pdf_def throw_def)

theorem invalid_config_no_io_witness:
  "html_to_pdf demo_env None None (lit ''out.pdf'') None default_pdf default_render =
     (Inl (ValueError (lit ''Faqat bittasini bering: html (string) yoki html_path (file).'')), [])
   \<and> html_to_pdf demo_env (Some (lit ''<p>x</p>'')) (Some (lit ''page.html'')) (lit ''out.pdf'') None
        default_pdf default_render =
     (Inl (ValueError (lit ''Faqat bittasini bering: html (string) yoki html_path (file).'')), [])"
  using invalid_config_no_io [of None None demo_env "lit ''out.pdf''" None default_pdf default_render]
    invalid_config_no_io [of "Some (lit ''<p>x</p>'')" "Some (lit ''page.html'')" demo_env
      "lit ''out.pdf''" None default_pdf default_render]
  by simp

text \<open>
  C10: for a file path that does not exist, the not-found error is raised after the
  output path has been resolved and the directory of the output has been made: when
  making it succeeds, the calls of the conversion are exactly these two, the resolution
  of the HTML path and the test that it exists. And whenever the conversion raises a
  not-found error, its first two calls are the resolution of the output path and the
  making of its directory, so the file system may have changed.
\<close>

theorem missing_html_after_mkdir:
  "(html = None \<and> html_path = Some hp
      \<and> fs_mkdir env (parent (fs_resolve env output_pdf_path)) = None
      \<and> \<not> fs_exists env (fs_resolve env hp) \<longrightarrow>
    html_to_pdf env html html_path output_pdf_path base_dir pdf render =
      (Inl (FileNotFoundError (lit ''HTML topilmadi: '' @ fs_resolve env hp)),
       [Resolve output_pdf_path, Mkdir (parent (fs_resolve env output_pdf_path)),
        Resolve hp, Exists (fs_resolve env hp)]))
   \<and> (fst (html_to_pdf env html html_path output_pdf_path base_dir pdf render)
         = Inl (FileNotFoundError m) \<longrightarrow>
       take 2 (snd (html_to_pdf env html html_path output_pdf_path base_dir pdf render))
         = [Resolve output_pdf_path, Mkdir (parent (fs_resolve env output_pdf_path))])"
proof (intro conjI impI)
  assume "html = None \<and> html_path = Some hp
      \<and> fs_mkdir env (parent (fs_resolve env output_pdf_path)) = None
      \<and> \<not> fs_exists env (fs_resolve env hp)"
  then show "html_to_pdf env html html_path output_pdf_path base_dir pdf render =
      (Inl (FileNotFoundError (lit ''HTML topilmadi: '' @ fs_resolve env hp)),
       [Resolve output_pdf_path, Mkdir (parent (fs_resolve env output_pdf_path)),
        Resolve hp, Exists (fs_resolve env hp)])"
    by (simp add: html_to_pdf_def load_html_def throw_def)
next
  assume a: "fst (html_to_pdf env html html_path output_pdf_path base_dir pdf render)
         = Inl (FileNotFoundError m)"
  show "take 2 (snd (html_to_pdf env html html_path output_pdf_path base_dir pdf render))
         = [Resolve output_pdf_path, Mkdir (parent (fs_resolve env output_pdf_path))]"
  proof (cases "fs_mkdir env (parent (fs_resolve env output_pdf_path))")
    case None
    with a show ?thesis
      by (cases html; cases html_path) (simp_all add: html_to_pdf_def throw_def)
  next
    case (Some msg)
    with a show ?thesis
      by (cases html; cases html_path) (simp_all add: html_to_pdf_def throw_def)
  qed
qed

theorem missing_html_after_mkdir_witness:
  "fs_mkdir demo_env (parent (fs_resolve demo_env (lit ''new/dir/out.pdf''))) = None
   \<and> \<not> fs_exists demo_env (fs_resolve demo_env (lit ''nope.html''))
   \<and> html_to_pdf demo_env None (Some (lit ''nope.html'')) (lit ''new/dir/out.pdf'') None
        default_pdf default_render =
      (Inl (FileNotFoundError (lit ''HTML topilmadi: /work/nope.html'')),
       [Resolve (lit ''new/dir/out.pdf''), Mkdir (lit ''/work/new/dir''),
        Resolve (lit ''nope.html''), Exists (lit ''/work/nope.html'')])"
  using missing_html_after_mkdir [of None "Some (lit ''nope.html'')" "lit ''nope.html''" demo_env
      "lit ''new/dir/out.pdf''" None default_pdf default_render]
  by (simp add: demo_env_def parent_def lit_def)

section \<open>Templates without a backslash, and the first match\<close>

lemma tokenize_plain: "92 \<notin> set s \<Longrightarrow> tokenize (s @ t) = map_option (append (map Ch s)) (tokenize t)"
proof (induction s)
  case Nil
  show ?case by (simp add: option.map_ident)
next
  case (Cons c s)
  then have c: "c \<noteq> 92" and s: "92 \<notin> set s" by auto
  show ?case
  proof (cases "s @ t")
    case Nil
    with c show ?thesis by simp
  next
    case (Cons d ds)
    from Cons.IH [OF s] Cons c show ?thesis
      by (simp add: option.map_comp comp_def)
  qed
qed

lemma parse_template_plain:
  "parse_template (map Ch s @ ts) = map_option (append (map Lit s)) (parse_template ts)"
  by (induction s) (simp_all add: option.map_ident option.map_comp comp_def)

lemma expand_plain: "expand (map Lit s @ items) g = s @ expand items g"
  by (induction s) (simp_all add: expand_def)

lemma base_tag_plain: "92 \<notin> set base_href \<Longrightarrow> 92 \<notin> set (base_tag base_href)"
  by (simp add: base_tag_def lit_def)

lemma style_tag_plain: "92 \<notin> set css_text \<Longrightarrow> 92 \<notin> set (style_tag css_text)"
  by (simp add: style_tag_def lit_def)

lemma base_template:
  assumes "92 \<notin> set base_href"
  shows "tokenize ([92, 49, 92, 110, 32, 32] @ base_tag base_href)
           = Some (Esc 49 # Esc 110 # Ch 32 # Ch 32 # map Ch (base_tag base_href))"
    and "parse_template (Esc 49 # Esc 110 # Ch 32 # Ch 32 # map Ch (base_tag base_href))
           = Some (Group # Lit 10 # Lit 32 # Lit 32 # map Lit (base_tag base_href))"
proof -
  have "tokenize (base_tag base_href) = Some (map Ch (base_tag base_href))"
    using tokenize_plain [OF base_tag_plain [OF assms], of "[]"] by simp
  then show "tokenize ([92, 49, 92, 110, 32, 32] @ base_tag base_href)
           = Some (Esc 49 # Esc 110 # Ch 32 # Ch 32 # map Ch (base_tag base_href))"
    using tokenize_plain [of "[32, 32]" "base_tag base_href"] by simp
  have "parse_template (map Ch (base_tag base_href)) = Some (map Lit (base_tag base_href))"
    using parse_template_plain [of "base_tag base_href" "[]"] by simp
  then show "parse_template (Esc 49 # Esc 110 # Ch 32 # Ch 32 # map Ch (base_tag base_href))
           = Some (Group # Lit 10 # Lit 32 # Lit 32 # map Lit (base_tag base_href))"
    by (simp add: escape_step_def digit_escape_def is_digit_def escape_of_def)
qed

lemma css_template:
  assumes "92 \<notin> set css_text"
  shows "tokenize (style_tag css_text @ [92, 110, 92, 49])
           = Some (map Ch (style_tag css_text) @ [Esc 110, Esc 49])"
    and "parse_template (map Ch (style_tag css_text) @ [Esc 110, Esc 49])
           = Some (map Lit (style_tag css_text) @ [Lit 10, Group])"
proof -
  show "tokenize (style_tag css_text @ [92, 110, 92, 49])
           = Some (map Ch (style_tag css_text) @ [Esc 110, Esc 49])"
    using tokenize_plain [OF style_tag_plain [OF assms], of "[92, 110, 92, 49]"] by simp
  show "parse_template (map Ch (style_tag css_text) @ [Esc 110, Esc 49])
           = Some (map Lit (style_tag css_text) @ [Lit 10, Group])"
    by (simp add: parse_template_plain escape_step_def digit_escape_def is_digit_def escape_of_def)
qed

lemma find_first_Some:
  "find_first m s = Some (pre, g, rest) \<Longrightarrow>
     m (drop (length pre) s) = Some (g, rest) \<and> pre = take (length pre) s
     \<and> (\<forall>i<length pre. m (drop i s) = None)"
proof (induction s arbitrary: pre)
  case Nil
  then show ?case by (auto split: option.splits)
next
  case (Cons c cs)
  show ?case
  proof (cases "m (c # cs)")
    case (Some a)
    with Cons.prems show ?thesis by (cases a) auto
  next
    case None
    with Cons.prems obtain pre' where f: "find_first m cs = Some (pre', g, rest)" and p: "pre = c # pre'"
      by (auto split: option.splits)
    from Cons.IH [OF f] None p show ?thesis
      by (auto simp: less_Suc_eq_0_disj)
  qed
qed

lemma find_first_None: "find_first m s = None \<longleftrightarrow> (\<forall>i\<le>length s. m (drop i s) = None)"
proof (induction s)
  case Nil
  then show ?case by (auto split: option.splits)
next
  case (Cons c cs)
  show ?case
  proof (cases "m (c # cs)")
    case (Some a)
    then show ?thesis by (cases a) force
  next
    case None
    have "(\<forall>i\<le>length (c # cs). m (drop i (c # cs)) = None)
           \<longleftrightarrow> (\<forall>i\<le>length cs. m (drop i cs) = None)"
    proof
      assume a: "\<forall>i\<le>length (c # cs). m (drop i (c # cs)) = None"
      show "\<forall>i\<le>length cs. m (drop i cs) = None"
      proof (intro allI impI)
        fix i assume "i \<le> length cs"
        with a have "m (drop (Suc i) (c # cs)) = None" by (metis Suc_le_mono length_Cons)
        then show "m (drop i cs) = None" by simp
      qed
    next
      assume a: "\<forall>i\<le>length cs. m (drop i cs) = None"
      show "\<forall>i\<le>length (c # cs). m (drop i (c # cs)) = None"
      proof (intro allI impI)
        fix i assume i: "i \<le> length (c # cs)"
        show "m (drop i (c # cs)) = None"
        proof (cases i)
          case 0
          with None show ?thesis by simp
        next
          case (Suc j)
          with i a show ?thesis by simp
        qed
      qed
    qed
    with Cons.IH None show ?thesis
      by (auto split: option.splits)
  qed
qed


lemma match_open_head_Some:
  assumes "match_open_head s = Some (g, rest)"
  shows "s = g @ rest"
    and "g = take 5 s @ takeWhile (\<lambda>c. c \<noteq> 62) (drop 5 s) @ [62]"
    and "lower (take 5 s) = lit ''<head''"
proof -
  from assms show h: "lower (take 5 s) = lit ''<head''"
    by (auto simp: match_open_head_def split: if_splits)
  from assms h obtain x where d: "dropWhile (\<lambda>c. c \<noteq> 62) (drop 5 s) = x # rest"
    and g: "g = take 5 s @ takeWhile (\<lambda>c. c \<noteq> 62) (drop 5 s) @ [x]"
    by (auto simp: match_open_head_def split: list.splits)
  have "\<not> (hd (dropWhile (\<lambda>c. c \<noteq> 62) (drop 5 s)) \<noteq> 62)"
    using d hd_dropWhile [of "\<lambda>c. c \<noteq> 62" "drop 5 s"] by simp
  with d have x: "x = 62" by simp
  with g show "g = take 5 s @ takeWhile (\<lambda>c. c \<noteq> 62) (drop 5 s) @ [62]" by simp
  have "s = take 5 s @ drop 5 s" by simp
  also have "drop 5 s = takeWhile (\<lambda>c. c \<noteq> 62) (drop 5 s) @ dropWhile (\<lambda>c. c \<noteq> 62) (drop 5 s)"
    by simp
  finally show "s = g @ rest" using d g by simp
qed

lemma match_close_head_Some:
  assumes "match_close_head s = Some (g, rest)"
  shows "s = g @ rest"
    and "g = take 6 s @ takeWhile is_space (drop 6 s) @ [62]"
    and "lower (take 6 s) = lit ''</head''"
proof -
  from assms show h: "lower (take 6 s) = lit ''</head''"
    by (auto simp: match_close_head_def split: if_splits)
  from assms h have d: "dropWhile is_space (drop 6 s) = 62 # rest"
    and g: "g = take 6 s @ takeWhile is_space (drop 6 s) @ [62]"
    by (auto simp: match_close_head_def split: list.splits if_splits)
  from g show "g = take 6 s @ takeWhile is_space (drop 6 s) @ [62]" .
  have "s = take 6 s @ drop 6 s" by simp
  also have "drop 6 s = takeWhile is_space (drop 6 s) @ dropWhile is_space (drop 6 s)"
    by simp
  finally show "s = g @ rest" using d g by simp
qed

lemma find_first_split:
  assumes "find_first m s = Some (pre, g, rest)"
    and "\<And>t g' r'. m t = Some (g', r') \<Longrightarrow> t = g' @ r'"
  shows "s = pre @ g @ rest"
proof -
  from find_first_Some [OF assms(1)]
  have m: "m (drop (length pre) s) = Some (g, rest)" and p: "pre = take (length pre) s"
    by auto
  from assms(2) [OF m] have "drop (length pre) s = g @ rest" .
  then have "take (length pre) s @ g @ rest = s"
    by (metis append_take_drop_id)
  with p show ?thesis by simp
qed

lemma contains_mid: "contains (ps @ needle @ ss) needle"
proof (induction ps)
  case Nil
  show ?case
  proof (cases "needle @ ss")
    case Nil
    then show ?thesis by simp
  next
    case (Cons a list)
    have "prefix needle (needle @ ss)" by simp
    with Cons show ?thesis by simp
  qed
next
  case (Cons p ps)
  then show ?case by simp
qed

lemma lower_append: "lower (a @ b) = lower a @ lower b"
  by (simp add: lower_def)

lemma open_match_contains:
  assumes "match_open_head (drop i s) = Some (g, rest)"
  shows "contains (lower s) (lit ''<head'')"
proof -
  have "s = take i s @ take 5 (drop i s) @ drop 5 (drop i s)"
    by (metis append_take_drop_id)
  then have "lower s = lower (take i s) @ lower (take 5 (drop i s)) @ lower (drop 5 (drop i s))"
    by (metis lower_append)
  with match_open_head_Some(3) [OF assms] show ?thesis
    by (simp add: contains_mid)
qed

lemmas str_eval = lit_def lower_def lower_cp_def is_space_def match_open_head_def
  match_close_head_def base_tag_def style_tag_def

lemmas sub_eval = inject_base_tag_def wrap_with_css_def re_sub_first_def expand_def
  escape_step_def digit_escape_def octal_zero_def group_ref_def escape_of_def is_digit_def
  is_octdigit_def is_ascii_letter_def name_index_def

section \<open>The base tag\<close>

text \<open>
  C4: the pattern of the source for an opening head tag is \<^verbatim>\<open><head\<close> in any letter case
  and then anything up to the next \<^verbatim>\<open>>\<close>, so it also matches the opening tag of a
  \<^verbatim>\<open>header\<close> element. The text \<^verbatim>\<open><header></header><head></head>\<close> holds a head
  element; the first match of the pattern in it is \<^verbatim>\<open><header>\<close>, and
  \<^verbatim>\<open>_inject_base_tag\<close> puts the base tag after that tag. The opening head tag, which
  comes later, stays as it was, with no base tag after it.
\<close>

theorem inject_base_tag_after_header:
  \<open>contains (lower (lit ''<header></header><head></head>'')) (lit ''<head'')
   \<and> find_first match_open_head (lit ''<header></header><head></head>'')
       = Some ([], lit ''<header>'', lit ''</header><head></head>'')
   \<and> inject_base_tag (lit ''<header></header><head></head>'') (lit ''file:///work/'')
       = Inr (lit ''<header>\<newline>  <base href="file:///work/"></header><head></head>'')
   \<and> inject_base_tag (lit ''<header></header><head></head>'') (lit ''file:///work/'')
       \<noteq> Inr (lit ''<header></header><head>\<newline>  <base href="file:///work/"></head>'')\<close>
  by (simp add: str_eval sub_eval)

text \<open>
  What the function does wherever the pattern matches: \<open>find_first\<close> gives the text
  before the first match, the matched tag and the text after it, and for a base href
  without a backslash the result is the same three parts with one base tag, after a
  newline and two spaces, put right after the end of that tag. Nothing before the tag, in
  the tag or after it changes, and the pattern matches nowhere earlier.
\<close>

lemma inject_base_tag_after_first_match:
  assumes "find_first match_open_head html = Some (pre, tag, post)"
    and "92 \<notin> set base_href"
  shows "inject_base_tag html base_href
           = Inr (pre @ tag @ lit ''\<newline>  '' @ base_tag base_href @ post)
         \<and> html = pre @ tag @ post
         \<and> match_open_head (tag @ post) = Some (tag, post)
         \<and> (\<forall>i<length pre. match_open_head (drop i html) = None)"
proof -
  from find_first_Some [OF assms(1)]
  have m: "match_open_head (drop (length pre) html) = Some (tag, post)"
    and first: "\<forall>i<length pre. match_open_head (drop i html) = None"
    by auto
  have split: "html = pre @ tag @ post"
    using find_first_split [OF assms(1)] match_open_head_Some(1) by blast
  from m split have m': "match_open_head (tag @ post) = Some (tag, post)" by simp
  have guard: "contains (lower html) (lit ''<head'')"
    using open_match_contains [OF m] .
  have "inject_base_tag html base_href
          = Inr (pre @ expand (Group # Lit 10 # Lit 32 # Lit 32 # map Lit (base_tag base_href)) tag @ post)"
    using guard assms(1) base_template [OF assms(2)]
    by (simp add: inject_base_tag_def re_sub_first_def)
  also have "expand (Group # Lit 10 # Lit 32 # Lit 32 # map Lit (base_tag base_href)) tag
          = tag @ lit ''\<newline>  '' @ base_tag base_href"
    using expand_plain [of "base_tag base_href" "[]" tag] by (simp add: expand_def lit_def)
  finally show ?thesis using split m' first by simp
qed

text \<open>
  C2: a text that holds \<^verbatim>\<open><head\<close> with no \<^verbatim>\<open>>\<close> after it has no head tag (the pattern
  does not match anywhere), yet the test \<^verbatim>\<open>"<head" in html.lower()\<close> sends it to
  \<^verbatim>\<open>re.sub\<close>, which finds nothing to replace: the text comes back as it was, with no
  document skeleton around it and no base tag.
\<close>

theorem inject_base_tag_unterminated_head:
  \<open>find_first match_open_head (lit ''<head'') = None
   \<and> inject_base_tag (lit ''<head'') (lit ''file:///work/'') = Inr (lit ''<head'')
   \<and> find_first match_open_head (lit ''<p>a</p> <head lang=en'') = None
   \<and> inject_base_tag (lit ''<p>a</p> <head lang=en'') (lit ''file:///work/'')
       = Inr (lit ''<p>a</p> <head lang=en'')\<close>
  by (simp add: str_eval sub_eval)

text \<open>
  C9: on such a text applying \<^verbatim>\<open>_inject_base_tag\<close> twice gives the text itself again:
  the result holds no base tag at all, and the function is idempotent there.
\<close>

theorem inject_twice_unterminated_head:
  \<open>inject_twice (lit ''<head'') (lit ''file:///work/'') = Inr (lit ''<head'')
   \<and> occurrences (base_tag (lit ''file:///work/'')) (lit ''<head'') = 0
   \<and> inject_base_tag (lit ''<head'') (lit ''file:///work/'') = Inr (lit ''<head'')\<close>
  by (simp add: str_eval sub_eval inject_twice_def)

text \<open>
  On every other text the function does what C2 and C9 say. A text that does not hold
  \<^verbatim>\<open><head\<close> is wrapped in the skeleton; and for a text with a head tag, as for a text
  that does not hold \<^verbatim>\<open><head\<close>, a second application finds the head tag that the
  first one matched or made and puts a second base tag after it (the base href having no
  backslash).
\<close>

lemma inject_base_tag_without_head_text:
  "\<not> contains (lower html) (lit ''<head'') \<Longrightarrow>
   inject_base_tag html base_href
     = Inr (lit ''<!doctype html><html><head>'' @ base_tag base_href
            @ lit ''</head><body>'' @ html @ lit ''</body></html>'')"
  by (simp add: inject_base_tag_def)

lemma inject_at_first_match:
  assumes "find_first match_open_head html = Some (pre, tag, post)"
    and "92 \<notin> set base_href"
  shows "inject_base_tag html base_href
           = Inr (pre @ tag @ lit ''\<newline>  '' @ base_tag base_href @ post)"
proof -
  from find_first_Some [OF assms(1)]
  have m: "match_open_head (drop (length pre) html) = Some (tag, post)"
    by auto
  have guard: "contains (lower html) (lit ''<head'')"
    using open_match_contains [OF m] .
  have "inject_base_tag html base_href
          = Inr (pre @ expand (Group # Lit 10 # Lit 32 # Lit 32 # map Lit (base_tag base_href)) tag @ post)"
    using guard assms(1) base_template [OF assms(2)]
    by (simp add: inject_base_tag_def re_sub_first_def)
  also have "expand (Group # Lit 10 # Lit 32 # Lit 32 # map Lit (base_tag base_href)) tag
          = tag @ lit ''\<newline>  '' @ base_tag base_href"
    using expand_plain [of "base_tag base_href" "[]" tag] by (simp add: expand_def lit_def)
  finally show ?thesis by simp
qed

lemma find_first_at:
  assumes "\<forall>i<length pre. m (drop i (pre @ s)) = None" and "m s = Some (g, rest)"
  shows "find_first m (pre @ s) = Some (pre, g, rest)"
  using assms(1)
proof (induction pre)
  case Nil
  from assms(2) show ?case by (cases s) simp_all
next
  case (Cons c pre)
  from Cons.prems have 0: "m (c # pre @ s) = None"
    by (metis append_Cons drop0 length_greater_0_conv list.distinct(1))
  have "\<forall>i<length pre. m (drop i (pre @ s)) = None"
  proof (intro allI impI)
    fix i assume "i < length pre"
    then have "Suc i < length (c # pre)" by simp
    with Cons.prems have "m (drop (Suc i) ((c # pre) @ s)) = None" by blast
    then show "m (drop i (pre @ s)) = None" by simp
  qed
  from Cons.IH [OF this] 0 show ?case by simp
qed

lemma open_tag_shape:
  assumes "match_open_head (tag @ post) = Some (tag, post)"
  shows "\<exists>h body. tag = h @ body @ [62] \<and> length h = 5 \<and> lower h = lit ''<head''
           \<and> 62 \<notin> set body"
proof -
  let ?s = "tag @ post"
  have t: "tag = take 5 ?s @ takeWhile (\<lambda>c. c \<noteq> 62) (drop 5 ?s) @ [62]"
    using match_open_head_Some(2) [OF assms] .
  have l: "lower (take 5 ?s) = lit ''<head''"
    using match_open_head_Some(3) [OF assms] .
  then have "length (lower (take 5 ?s)) = length (lit ''<head'')" by simp
  then have n: "length (take 5 ?s) = 5" by (simp add: lower_def lit_def)
  have "62 \<notin> set (takeWhile (\<lambda>c. c \<noteq> 62) (drop 5 ?s))"
    by (auto dest: set_takeWhileD)
  with t l n show ?thesis by blast
qed

lemma open_tag_match:
  assumes "length h = 5" and "lower h = lit ''<head''" and "62 \<notin> set body"
  shows "match_open_head (h @ body @ [62] @ rest) = Some (h @ body @ [62], rest)"
proof -
  have b: "\<And>x. x \<in> set body \<Longrightarrow> x \<noteq> 62"
    using assms(3) by auto
  have d: "dropWhile (\<lambda>c. c \<noteq> 62) (body @ 62 # rest) = 62 # rest"
    using b by (simp add: dropWhile_append2)
  have t: "takeWhile (\<lambda>c. c \<noteq> 62) (body @ 62 # rest) = body"
    using b by (simp add: takeWhile_append2)
  from assms(1,2) d t show ?thesis
    by (simp add: match_open_head_def)
qed

lemma no_open_tag_before:
  assumes none: "\<forall>i<length pre. match_open_head (drop i (pre @ tag @ post)) = None"
    and tag: "match_open_head (tag @ post) = Some (tag, post)"
  shows "\<forall>i<length pre. match_open_head (drop i (pre @ tag @ post')) = None"
proof (intro allI impI)
  fix i assume i: "i < length pre"
  from open_tag_shape [OF tag] obtain h body where
    s: "tag = h @ body @ [62]" and h: "length h = 5"
    by blast
  have len: "i + 5 < length (pre @ tag)"
    using i s h by simp
  have tk: "take 5 (drop i (pre @ tag @ x)) = take 5 (drop i (pre @ tag))" for x
  proof -
    have "drop i (pre @ tag @ x) = drop i (pre @ tag) @ x"
      using len by simp
    moreover have "5 \<le> length (drop i (pre @ tag))"
      using len by simp
    ultimately show ?thesis by simp
  qed
  define t where "t = drop i (pre @ tag @ post)"
  have "drop 5 t = drop (5 + i) (pre @ h @ body) @ [62] @ post"
    using i s h by (simp add: t_def)
  then have "62 \<in> set (drop 5 t)"
    by simp
  then have "dropWhile (\<lambda>c. c \<noteq> 62) (drop 5 t) \<noteq> []"
    by (auto simp: dropWhile_eq_Nil_conv)
  then obtain x xs where dw: "dropWhile (\<lambda>c. c \<noteq> 62) (drop 5 t) = x # xs"
    by (cases "dropWhile (\<lambda>c. c \<noteq> 62) (drop 5 t)") auto
  from none i have "match_open_head t = None"
    by (simp add: t_def)
  with dw have "lower (take 5 t) \<noteq> lit ''<head''"
    by (auto simp: match_open_head_def)
  then have ne: "lower (take 5 (drop i (pre @ tag @ post))) \<noteq> lit ''<head''"
    unfolding t_def .
  have e: "take 5 (drop i (pre @ tag @ post')) = take 5 (drop i (pre @ tag @ post))"
    using tk [of post] tk [of post'] by (rule ssubst)
  have "lower (take 5 (drop i (pre @ tag @ post'))) \<noteq> lit ''<head''"
    unfolding e by (rule ne)
  then show "match_open_head (drop i (pre @ tag @ post')) = None"
    unfolding match_open_head_def by (rule if_not_P)
qed

lemma skeleton_first_head:
  "find_first match_open_head (lit ''<!doctype html><html><head>'' @ rest)
     = Some (lit ''<!doctype html><html>'', lit ''<head>'', rest)"
  by (simp add: str_eval)

lemma inject_twice_two_base_tags:
  assumes href: "92 \<notin> set base_href"
    and ok: "find_first match_open_head html \<noteq> None \<or> \<not> contains (lower html) (lit ''<head'')"
  shows "\<exists>a b c. inject_twice html base_href
           = Inr (a @ base_tag base_href @ b @ base_tag base_href @ c)"
proof (cases "find_first match_open_head html")
  case (Some x)
  then obtain pre tag post where f: "find_first match_open_head html = Some (pre, tag, post)"
    by (cases x) auto
  let ?ins = "lit ''\<newline>  '' @ base_tag base_href"
  have once: "inject_base_tag html base_href = Inr (pre @ tag @ ?ins @ post)"
    using inject_at_first_match [OF f href] by simp
  from find_first_Some [OF f]
  have m: "match_open_head (drop (length pre) html) = Some (tag, post)"
    and none: "\<forall>i<length pre. match_open_head (drop i html) = None"
    by auto
  have split: "html = pre @ tag @ post"
    using find_first_split [OF f] match_open_head_Some(1) by blast
  from m split have tag: "match_open_head (tag @ post) = Some (tag, post)" by simp
  from open_tag_shape [OF tag] obtain h body where
    "tag = h @ body @ [62]" "length h = 5" "lower h = lit ''<head''" "62 \<notin> set body"
    by blast
  then have tag': "match_open_head (tag @ ?ins @ post) = Some (tag, ?ins @ post)"
    using open_tag_match [of h body "?ins @ post"] by simp
  have none': "\<forall>i<length pre. match_open_head (drop i (pre @ tag @ ?ins @ post)) = None"
    using no_open_tag_before [OF _ tag] none split by simp
  have "find_first match_open_head (pre @ tag @ ?ins @ post) = Some (pre, tag, ?ins @ post)"
    using find_first_at [OF none' tag'] .
  from inject_at_first_match [OF this href] once
  have "inject_twice html base_href
      = Inr (pre @ tag @ lit ''\<newline>  '' @ base_tag base_href @ lit ''\<newline>  ''
             @ base_tag base_href @ post)"
    by (simp add: inject_twice_def)
  then have "inject_twice html base_href
      = Inr ((pre @ tag @ lit ''\<newline>  '') @ base_tag base_href @ lit ''\<newline>  ''
             @ base_tag base_href @ post)"
    by simp
  then show ?thesis by blast
next
  case None
  with ok have "\<not> contains (lower html) (lit ''<head'')" by simp
  then have once: "inject_base_tag html base_href
      = Inr (lit ''<!doctype html><html><head>'' @ base_tag base_href
             @ lit ''</head><body>'' @ html @ lit ''</body></html>'')"
    by (simp add: inject_base_tag_def)
  let ?rest = "base_tag base_href @ lit ''</head><body>'' @ html @ lit ''</body></html>''"
  have "inject_base_tag (lit ''<!doctype html><html><head>'' @ ?rest) base_href
      = Inr (lit ''<!doctype html><html>'' @ lit ''<head>'' @ lit ''\<newline>  ''
             @ base_tag base_href @ ?rest)"
    using inject_at_first_match [OF skeleton_first_head href] .
  with once have "inject_twice html base_href
      = Inr ((lit ''<!doctype html><html>'' @ lit ''<head>'' @ lit ''\<newline>  '')
             @ base_tag base_href @ [] @ base_tag base_href
             @ (lit ''</head><body>'' @ html @ lit ''</body></html>''))"
    by (simp add: inject_twice_def)
  then show ?thesis by blast
qed

section \<open>The extra style sheet\<close>

text \<open>
  C3, as the code has it: when the HTML text holds \<^verbatim>\<open><head\<close> in some letter case, a
  head-closing tag matches in it and the CSS text has no backslash, \<^verbatim>\<open>_wrap_with_css\<close>
  puts the style block and a newline right before the first head-closing tag and changes
  nothing else, so that tag is kept once, moved by the length of what was put in; and
  when the HTML text does not hold \<^verbatim>\<open><head\<close>, it is wrapped in the skeleton whose head
  holds the style block.
\<close>

theorem wrap_with_css_before_first_close:
  "(contains (lower html) (lit ''<head'')
      \<and> find_first match_close_head html = Some (pre, tag, post) \<and> 92 \<notin> set css_text \<longrightarrow>
    wrap_with_css html css_text = Inr (pre @ style_tag css_text @ [10] @ tag @ post)
    \<and> html = pre @ tag @ post
    \<and> match_close_head (tag @ post) = Some (tag, post)
    \<and> (\<forall>i<length pre. match_close_head (drop i html) = None))
   \<and> (\<not> contains (lower html) (lit ''<head'') \<longrightarrow>
       wrap_with_css html css_text =
         Inr (lit ''<!doctype html><html><head>'' @ style_tag css_text
              @ lit ''</head><body>'' @ html @ lit ''</body></html>''))"
proof (rule conjI; rule impI)
  assume a: "contains (lower html) (lit ''<head'')
      \<and> find_first match_close_head html = Some (pre, tag, post) \<and> 92 \<notin> set css_text"
  then have guard: "contains (lower html) (lit ''<head'')"
    and ff: "find_first match_close_head html = Some (pre, tag, post)"
    and css: "92 \<notin> set css_text"
    by auto
  from find_first_Some [OF ff]
  have m: "match_close_head (drop (length pre) html) = Some (tag, post)"
    and first: "\<forall>i<length pre. match_close_head (drop i html) = None"
    by auto
  have split: "html = pre @ tag @ post"
    using find_first_split [OF ff] match_close_head_Some(1) by blast
  from m split have m': "match_close_head (tag @ post) = Some (tag, post)" by simp
  have "wrap_with_css html css_text
          = Inr (pre @ expand (map Lit (style_tag css_text) @ [Lit 10, Group]) tag @ post)"
    using guard ff css_template [OF css]
    by (simp add: wrap_with_css_def re_sub_first_def)
  also have "expand (map Lit (style_tag css_text) @ [Lit 10, Group]) tag
          = style_tag css_text @ [10] @ tag"
  proof -
    have "expand [Lit 10, Group] tag = [10] @ tag"
      by (simp add: expand_def)
    then show ?thesis
      by (simp only: expand_plain)
  qed
  finally show "wrap_with_css html css_text = Inr (pre @ style_tag css_text @ [10] @ tag @ post)
    \<and> html = pre @ tag @ post
    \<and> match_close_head (tag @ post) = Some (tag, post)
    \<and> (\<forall>i<length pre. match_close_head (drop i html) = None)"
    using split m' first by simp
next
  assume "\<not> contains (lower html) (lit ''<head'')"
  then show "wrap_with_css html css_text =
         Inr (lit ''<!doctype html><html><head>'' @ style_tag css_text
              @ lit ''</head><body>'' @ html @ lit ''</body></html>'')"
    by (simp add: wrap_with_css_def)
qed

theorem wrap_with_css_before_first_close_witness:
  \<open>contains (lower (lit ''<html><HEAD><title>t</title></Head ><body></head></body>'')) (lit ''<head'')
   \<and> find_first match_close_head (lit ''<html><HEAD><title>t</title></Head ><body></head></body>'')
       = Some (lit ''<html><HEAD><title>t</title>'', lit ''</Head >'', lit ''<body></head></body>'')
   \<and> 92 \<notin> set (lit ''p{color:red}'')
   \<and> wrap_with_css (lit ''<html><HEAD><title>t</title></Head ><body></head></body>'') (lit ''p{color:red}'')
       = Inr (lit ''<html><HEAD><title>t</title><style>\<newline>p{color:red}\<newline></style>\<newline></Head ><body></head></body>'')
   \<and> \<not> contains (lower (lit ''<p>x</p>'')) (lit ''<head'')
   \<and> wrap_with_css (lit ''<p>x</p>'') (lit ''p{color:red}'')
       = Inr (lit ''<!doctype html><html><head><style>\<newline>p{color:red}\<newline></style></head><body><p>x</p></body></html>'')\<close>
proof -
  have g: "contains (lower (lit ''<html><HEAD><title>t</title></Head ><body></head></body>'')) (lit ''<head'')"
    by (simp add: str_eval)
  have f: "find_first match_close_head (lit ''<html><HEAD><title>t</title></Head ><body></head></body>'')
       = Some (lit ''<html><HEAD><title>t</title>'', lit ''</Head >'', lit ''<body></head></body>'')"
    by (simp add: str_eval)
  have c: "92 \<notin> set (lit ''p{color:red}'')"
    by (simp add: str_eval)
  have n: "\<not> contains (lower (lit ''<p>x</p>'')) (lit ''<head'')"
    by (simp add: str_eval)
  show ?thesis
    using g f c n
      wrap_with_css_before_first_close [of "lit ''<html><HEAD><title>t</title></Head ><body></head></body>''"
        "lit ''<html><HEAD><title>t</title>''" "lit ''</Head >''" "lit ''<body></head></body>''"
        "lit ''p{color:red}''"]
      wrap_with_css_before_first_close [of "lit ''<p>x</p>''" "[]" "[]" "[]" "lit ''p{color:red}''"]
    by (simp add: str_eval)
qed

text \<open>
  C3 as stated fails. The text \<^verbatim>\<open></head>\<close> has a head-closing tag, but it does not hold
  \<^verbatim>\<open><head\<close>, so it is wrapped in the skeleton and the result has two head-closing tags.
  A CSS text with a backslash is read as a replacement template: \<^verbatim>\<open>\f\<close> becomes a form
  feed, so the style block does not hold the CSS as it was. And \<^verbatim>\<open><head\<close> with nothing
  after it has no head tag, but it is not wrapped: it comes back without the CSS.
\<close>

theorem wrap_with_css_counterexample:
  \<open>find_first match_close_head (lit ''</head>'') = Some ([], lit ''</head>'', [])
   \<and> wrap_with_css (lit ''</head>'') (lit ''p{}'')
       = Inr (lit ''<!doctype html><html><head><style>\<newline>p{}\<newline></style></head><body></head></body></html>'')
   \<and> count_matches match_close_head
        (lit ''<!doctype html><html><head><style>\<newline>p{}\<newline></style></head><body></head></body></html>'') = 2
   \<and> wrap_with_css (lit ''<head></head>'') (lit ''a{content:"'' @ [92] @ lit ''f101"}'')
       = Inr (lit ''<head><style>\<newline>a{content:"'' @ [12] @ lit ''101"}\<newline></style>\<newline></head>'')
   \<and> find_first match_open_head (lit ''<head'') = None
   \<and> wrap_with_css (lit ''<head'') (lit ''p{}'') = Inr (lit ''<head'')\<close>
  by (simp add: str_eval sub_eval)

section \<open>The exceptions of a conversion\<close>

lemma fst_bind_Inl:
  "fst (bind m f) = Inl e \<longleftrightarrow> fst m = Inl e \<or> (\<exists>x. fst m = Inr x \<and> fst (f x) = Inl e)"
  by (auto simp: bind_def split: sum.splits)

lemma fst_bind_Inr:
  "fst (bind m f) = Inr y \<longleftrightarrow> (\<exists>x. fst m = Inr x \<and> fst (f x) = Inr y)"
  by (auto simp: bind_def split: sum.splits)

lemma fst_finally_Inl:
  "fst (finally_do body fin) = Inl e \<Longrightarrow> fst fin = Inl e \<or> fst body = Inl e"
  by (auto simp: finally_do_def split: sum.splits)

lemma fst_call_Inl: "fst (call ev outcome) = Inl e \<Longrightarrow> \<exists>msg. e = Raised msg"
  by (auto simp: call_def split: option.splits)

lemma fst_call_val_Inl: "fst (call_val ev outcome) = Inl e \<Longrightarrow> \<exists>msg. e = Raised msg"
  by (auto simp: call_val_def split: sum.splits)

lemma re_sub_first_Inl: "re_sub_first m repl s = Inl e \<Longrightarrow> e = ReError"
  by (auto simp: re_sub_first_def split: option.splits)

lemma wrap_with_css_Inl: "wrap_with_css html css_text = Inl e \<Longrightarrow> e = ReError"
  by (auto simp: wrap_with_css_def split: if_splits dest: re_sub_first_Inl)

lemma inject_base_tag_Inl: "inject_base_tag html base_href = Inl e \<Longrightarrow> e = ReError"
  by (auto simp: inject_base_tag_def split: if_splits dest: re_sub_first_Inl)

lemma load_html_Inl:
  "fst (load_html env html html_path base_dir) = Inl e \<Longrightarrow> \<not> is_HtmlToPdfError e"
  by (auto simp: load_html_def throw_def ret_def call_val_def bind_def
      split: option.splits if_splits sum.splits)

lemma add_css_Inl:
  "fst (add_css env render html_text) = Inl e \<Longrightarrow> \<not> is_HtmlToPdfError e"
  by (auto simp: add_css_def throw_def ret_def call_val_def bind_def lift_def
      split: option.splits if_splits sum.splits dest: wrap_with_css_Inl)

lemma add_base_Inl:
  "fst (add_base env render base_dir html_text) = Inl e \<Longrightarrow> \<not> is_HtmlToPdfError e"
  by (auto simp: add_base_def ret_def lift_def split: if_splits dest: inject_base_tag_Inl)

lemma try_block_domain:
  "fst (try_block env out tmp pdf render) = Inl (HtmlToPdfError m c) \<Longrightarrow>
     \<exists>g. c = Raised g \<and> m = lit ''PDF render xatosi: '' @ g
       \<and> (pw_goto env = Some g \<or> pw_pdf env = Some g)"
  by (auto simp: try_block_def navigate_def finally_do_def except_do_def bind_def call_def throw_def ret_def
      split: option.splits sum.splits)

lemma render_page_domain:
  assumes "fst (render_page env out tmp pdf render) = Inl (HtmlToPdfError m c)"
  shows "\<exists>g. c = Raised g \<and> m = lit ''PDF render xatosi: '' @ g
       \<and> (pw_goto env = Some g \<or> pw_pdf env = Some g)"
proof -
  from assms have "fst (try_block env out tmp pdf render) = Inl (HtmlToPdfError m c)"
    unfolding render_page_def
    by (auto simp: fst_bind_Inl ret_def dest!: fst_call_Inl split: if_splits)
  then show ?thesis by (rule try_block_domain)
qed

lemma render_in_tmp_domain:
  assumes "fst (render_in_tmp env out html_text pdf render) = Inl (HtmlToPdfError m c)"
  shows "\<exists>g. c = Raised g \<and> m = lit ''PDF render xatosi: '' @ g
       \<and> (pw_goto env = Some g \<or> pw_pdf env = Some g)"
proof -
  from assms obtain tmp where
    "fst (render_page env out (joinpath tmp (lit ''index.html'')) pdf render)
       = Inl (HtmlToPdfError m c)"
    unfolding render_in_tmp_def
    by (auto simp: fst_bind_Inl dest!: fst_call_Inl fst_call_val_Inl fst_finally_Inl)
  then show ?thesis by (rule render_page_domain)
qed

lemma html_to_pdf_domain:
  assumes "fst (html_to_pdf env html html_path out base_dir pdf render)
             = Inl (HtmlToPdfError m c)"
  shows "\<exists>g. c = Raised g \<and> m = lit ''PDF render xatosi: '' @ g
       \<and> (pw_goto env = Some g \<or> pw_pdf env = Some g)"
proof -
  from assms obtain html_text where
    "fst (render_in_tmp env (fs_resolve env out) html_text pdf render)
       = Inl (HtmlToPdfError m c)"
    unfolding html_to_pdf_def
    by (auto simp: fst_bind_Inl throw_def ret_def call_val_def split: if_splits prod.splits
        dest!: fst_call_Inl load_html_Inl add_css_Inl add_base_Inl)
  then show ?thesis by (rule render_in_tmp_domain)
qed

lemma html_to_pdf_success:
  "fst (html_to_pdf env html html_path out base_dir pdf render) = Inr p \<Longrightarrow> p = fs_resolve env out"
  unfolding html_to_pdf_def
  by (auto simp: fst_bind_Inr throw_def ret_def call_val_def split: if_splits prod.splits)


lemma in_bind:
  assumes "ev \<in> set (snd (bind m f))" and "ev \<notin> set (snd m)"
  shows "\<exists>x. fst m = Inr x \<and> ev \<in> set (snd (f x)) \<and> fst (bind m f) = fst (f x)"
  using assms by (cases "fst m") (auto simp: bind_def)

lemma in_finally:
  assumes "ev \<in> set (snd (finally_do body fin))" and "ev \<notin> set (snd fin)"
  shows "ev \<in> set (snd body)"
  using assms by (auto simp: finally_do_def split: sum.splits)

lemma fst_finally_call:
  "fst (finally_do body (call ev outcome))
     = (case outcome of Some msg \<Rightarrow> Inl (Raised msg) | None \<Rightarrow> fst body)"
  by (simp add: finally_do_def call_def split: option.splits)

lemma snd_call [simp]: "snd (call ev outcome) = [ev]"
  by (simp add: call_def split: option.splits)

lemma snd_call_val [simp]: "snd (call_val ev outcome) = [ev]"
  by (simp add: call_val_def split: sum.splits)

lemma goto_not_in_load_html: "Goto u w t \<notin> set (snd (load_html env html html_path base_dir))"
  by (auto simp: load_html_def throw_def ret_def call_val_def bind_def
      split: option.splits if_splits sum.splits)

lemma goto_not_in_add_css: "Goto u w t \<notin> set (snd (add_css env render html_text))"
  by (auto simp: add_css_def throw_def ret_def call_val_def bind_def lift_def
      split: option.splits if_splits sum.splits)

lemma goto_not_in_add_base: "Goto u w t \<notin> set (snd (add_base env render base_dir html_text))"
  by (auto simp: add_base_def ret_def lift_def split: if_splits)

lemma render_page_reached:
  assumes "Goto u w t \<in> set (snd (render_page env out tmp pdf render))"
  shows "fst (render_page env out tmp pdf render) = fst (try_block env out tmp pdf render)"
proof -
  from assms have l: "pw_launch env = None"
    by (cases "pw_launch env") (simp_all add: render_page_def)
  from assms l have c: "pw_new_context env = None"
    by (cases "pw_new_context env") (simp_all add: render_page_def)
  from assms l c have p: "pw_new_page env = None"
    by (cases "pw_new_page env") (simp_all add: render_page_def)
  from assms l c p have r: "allow_network render \<or> pw_route env = None"
    by (cases "pw_route env") (auto simp: render_page_def split: if_splits)
  from assms l c p r have e: "pw_emulate_media env = None"
    by (cases "pw_emulate_media env") (auto simp: render_page_def ret_def split: if_splits)
  from l c p r e show ?thesis
    by (auto simp: render_page_def ret_def)
qed

lemma render_in_tmp_reached:
  assumes "Goto u w t \<in> set (snd (render_in_tmp env out html_text pdf render))"
  shows "\<exists>tmp. fst (render_in_tmp env out html_text pdf render)
           = (case fs_cleanup env of
                Some msg \<Rightarrow> Inl (Raised msg)
              | None \<Rightarrow> (case pw_stop env of
                           Some msg \<Rightarrow> Inl (Raised msg)
                         | None \<Rightarrow> fst (try_block env out tmp pdf render)))"
proof -
  obtain tmp where d: "fs_mkdtemp env = Inr tmp"
    using assms by (cases "fs_mkdtemp env") (auto simp: render_in_tmp_def call_val_def)
  define tmp_html where "tmp_html = joinpath tmp (lit ''index.html'')"
  define inner where "inner = finally_do (render_page env out tmp_html pdf render)
      (call PlaywrightStop (pw_stop env))"
  define body where "body = bind (call (WriteText tmp_html html_text)
      (fs_write_text env tmp_html html_text)) (\<lambda>u. bind (call PlaywrightStart (pw_start env))
        (\<lambda>u. inner))"
  have rit: "render_in_tmp env out html_text pdf render
      = (fst (finally_do body (call Cleanup (fs_cleanup env))),
         MkTemp # snd (finally_do body (call Cleanup (fs_cleanup env))))"
    using d by (simp add: render_in_tmp_def body_def inner_def tmp_html_def)
  with assms have "Goto u w t \<in> set (snd (finally_do body (call Cleanup (fs_cleanup env))))"
    by simp
  then have gb: "Goto u w t \<in> set (snd body)"
    by (rule in_finally) simp
  then have wr: "fs_write_text env tmp_html html_text = None"
    by (cases "fs_write_text env tmp_html html_text") (simp_all add: body_def)
  from gb wr have st: "pw_start env = None"
    by (cases "pw_start env") (simp_all add: body_def)
  from gb wr st have gi: "Goto u w t \<in> set (snd inner)" and bi: "fst body = fst inner"
    by (simp_all add: body_def)
  from gi have "Goto u w t \<in> set (snd (render_page env out tmp_html pdf render))"
    unfolding inner_def by (rule in_finally) simp
  then have "fst (render_page env out tmp_html pdf render)
      = fst (try_block env out tmp_html pdf render)"
    by (rule render_page_reached)
  then have "fst inner = (case pw_stop env of Some msg \<Rightarrow> Inl (Raised msg)
      | None \<Rightarrow> fst (try_block env out tmp_html pdf render))"
    by (simp add: inner_def fst_finally_call split: option.splits)
  with bi rit have "fst (render_in_tmp env out html_text pdf render)
           = (case fs_cleanup env of
                Some msg \<Rightarrow> Inl (Raised msg)
              | None \<Rightarrow> (case pw_stop env of
                           Some msg \<Rightarrow> Inl (Raised msg)
                         | None \<Rightarrow> fst (try_block env out tmp_html pdf render)))"
    by (simp add: fst_finally_call split: option.splits)
  then show ?thesis ..
qed

lemma html_to_pdf_reached:
  assumes "Goto u w t \<in> set (snd (html_to_pdf env html html_path out base_dir pdf render))"
  shows "\<exists>html_text. Goto u w t \<in> set (snd (render_in_tmp env (fs_resolve env out) html_text pdf render))
           \<and> fst (html_to_pdf env html html_path out base_dir pdf render)
             = (case fst (render_in_tmp env (fs_resolve env out) html_text pdf render) of
                  Inl e \<Rightarrow> Inl e
                | Inr u \<Rightarrow> Inr (fs_resolve env out))"
proof -
  define G where "G = Goto u w t"
  define R where "R = html_to_pdf env html html_path out base_dir pdf render"
  define o' where "o' = fs_resolve env out"
  define k3 where "k3 = (\<lambda>html_text''. bind (render_in_tmp env o' html_text'' pdf render)
      (\<lambda>u. ret o'))"
  define k2 where "k2 = (\<lambda>base_dir' html_text'. bind (add_base env render base_dir' html_text') k3)"
  define k1 where "k1 = (\<lambda>(html_text, base_dir'). bind (add_css env render html_text)
      (k2 base_dir'))"
  have valid: "(html = None) \<noteq> (html_path = None)"
    using assms by (cases html; cases html_path) (auto simp: html_to_pdf_def throw_def)
  then have R1: "R = bind (call_val (Resolve out) (Inr o'))
      (\<lambda>out'. bind (call (Mkdir (parent out')) (fs_mkdir env (parent out')))
         (\<lambda>u. bind (load_html env html html_path base_dir)
           (\<lambda>(html_text, base_dir'). bind (add_css env render html_text)
             (\<lambda>html_text'. bind (add_base env render base_dir' html_text')
               (\<lambda>html_text''. bind (render_in_tmp env out' html_text'' pdf render)
                 (\<lambda>u. ret out'))))))"
    unfolding R_def o'_def html_to_pdf_def by (cases html; cases html_path) simp_all
  have gR: "G \<in> set (snd R)"
    using assms by (simp add: G_def R_def)
  have mk: "fs_mkdir env (parent o') = None"
    using gR unfolding R1 by (cases "fs_mkdir env (parent o')") (simp_all add: G_def)
  have R2: "fst R = fst (bind (load_html env html html_path base_dir) k1)"
    and g2: "G \<in> set (snd (bind (load_html env html html_path base_dir) k1))"
    using gR mk unfolding R1 k1_def k2_def k3_def by (simp_all add: G_def)
  from in_bind [OF g2] goto_not_in_load_html [of u w t env html html_path base_dir]
  obtain x where x: "G \<in> set (snd (k1 x))"
    and R3: "fst (bind (load_html env html html_path base_dir) k1) = fst (k1 x)"
    by (auto simp: G_def)
  obtain html_text b where xe: "x = (html_text, b)" by (cases x)
  from x xe have g3: "G \<in> set (snd (bind (add_css env render html_text) (k2 b)))"
    by (simp add: k1_def)
  from in_bind [OF g3] goto_not_in_add_css [of u w t env render html_text]
  obtain h' where g4: "G \<in> set (snd (k2 b h'))"
    and R4: "fst (bind (add_css env render html_text) (k2 b)) = fst (k2 b h')"
    by (auto simp: G_def)
  from g4 have g5: "G \<in> set (snd (bind (add_base env render b h') k3))"
    by (simp add: k2_def)
  from in_bind [OF g5] goto_not_in_add_base [of u w t env render b h']
  obtain h'' where g6: "G \<in> set (snd (k3 h''))"
    and R5: "fst (bind (add_base env render b h') k3) = fst (k3 h'')"
    by (auto simp: G_def)
  from g6 have g7: "G \<in> set (snd (render_in_tmp env o' h'' pdf render))"
    by (cases "fst (render_in_tmp env o' h'' pdf render)") (auto simp: k3_def bind_def ret_def)
  have "fst (k3 h'') = (case fst (render_in_tmp env o' h'' pdf render) of
                  Inl e \<Rightarrow> Inl e | Inr u \<Rightarrow> Inr o')"
    by (simp add: k3_def bind_def ret_def split: sum.splits)
  with R2 R3 R4 R5 xe have "fst R = (case fst (render_in_tmp env o' h'' pdf render) of
                  Inl e \<Rightarrow> Inl e | Inr u \<Rightarrow> Inr o')"
    by (simp add: k1_def k2_def)
  with g7 show ?thesis
    unfolding R_def G_def o'_def by blast
qed

lemma try_block_goto_fails:
  "pw_goto env = Some g \<Longrightarrow> pw_context_close env = None \<Longrightarrow> pw_browser_close env = None \<Longrightarrow>
   fst (try_block env out tmp pdf render)
     = Inl (HtmlToPdfError (lit ''PDF render xatosi: '' @ g) (Raised g))"
  by (simp add: try_block_def navigate_def finally_do_def except_do_def throw_def call_def)

lemma try_block_pdf_fails:
  "pw_goto env = None \<Longrightarrow> pw_pdf env = Some g \<Longrightarrow> pw_context_close env = None \<Longrightarrow>
   pw_browser_close env = None \<Longrightarrow>
   fst (try_block env out tmp pdf render)
     = Inl (HtmlToPdfError (lit ''PDF render xatosi: '' @ g) (Raised g))"
  by (cases "pw_evaluate env")
    (simp_all add: try_block_def navigate_def finally_do_def except_do_def throw_def ret_def call_def)

lemmas io_eval = html_to_pdf_def load_html_def add_css_def add_base_def render_in_tmp_def
  render_page_def try_block_def navigate_def finally_do_def except_do_def ret_def throw_def lift_def
  call_def call_val_def pdf_kwargs_def as_uri_def joinpath_def parent_def truthy_def opt_val_def
  demo_env_def default_pdf_def default_render_def answer_def installed_handler_def
  route_handler_def

lemma fst_bind_ok: "fst m = Inr x \<Longrightarrow> fst (bind m f) = fst (f x)"
  by (simp add: bind_def)

lemma fst_bind_err: "fst m = Inl e \<Longrightarrow> fst (bind m f) = Inl e"
  by (simp add: bind_def)

text \<open>
  C1, as the code has it: a call with both or neither of the HTML text and the HTML path
  raises \<^verbatim>\<open>ValueError\<close>; a call whose HTML file is missing raises
  \<^verbatim>\<open>FileNotFoundError\<close> once the directory of the output has been made, and so does a
  call whose CSS file is missing once the HTML has been loaded; when the navigation has
  been started and it, or after it the PDF export, raises, and closing the context and
  the browser, stopping Playwright and removing the temporary directory all return, the
  call raises \<^verbatim>\<open>HtmlToPdfError\<close> with the text and the cause of that exception; every
  \<^verbatim>\<open>HtmlToPdfError\<close> of a call wraps the exception of the navigation or of the export;
  and a call that returns, returns the resolved output path.
\<close>

theorem html_to_pdf_error_kinds:
  assumes r: "r = html_to_pdf env html html_path output_pdf_path base_dir pdf render"
  shows
    "((html = None) = (html_path = None) \<longrightarrow>
        fst r = Inl (ValueError
          (lit ''Faqat bittasini bering: html (string) yoki html_path (file).'')))
     \<and> (html = None \<and> html_path = Some hp
          \<and> fs_mkdir env (parent (fs_resolve env output_pdf_path)) = None
          \<and> \<not> fs_exists env (fs_resolve env hp) \<longrightarrow>
        fst r = Inl (FileNotFoundError (lit ''HTML topilmadi: '' @ fs_resolve env hp)))
     \<and> ((html = None) \<noteq> (html_path = None)
          \<and> fs_mkdir env (parent (fs_resolve env output_pdf_path)) = None
          \<and> fst (load_html env html html_path base_dir) = Inr (html_text, b)
          \<and> extra_css_path render = Some cp \<and> \<not> fs_exists env (fs_resolve env cp) \<longrightarrow>
        fst r = Inl (FileNotFoundError (lit ''CSS topilmadi: '' @ fs_resolve env cp)))
     \<and> (Goto u w n \<in> set (snd r) \<and> (pw_goto env = Some g \<or> pw_goto env = None \<and> pw_pdf env = Some g)
          \<and> pw_context_close env = None \<and> pw_browser_close env = None
          \<and> pw_stop env = None \<and> fs_cleanup env = None \<longrightarrow>
        fst r = Inl (HtmlToPdfError (lit ''PDF render xatosi: '' @ g) (Raised g)))
     \<and> (fst r = Inl (HtmlToPdfError m c) \<longrightarrow>
        (\<exists>g. c = Raised g \<and> m = lit ''PDF render xatosi: '' @ g
           \<and> (pw_goto env = Some g \<or> pw_pdf env = Some g)))
     \<and> (fst r = Inr p \<longrightarrow> p = fs_resolve env output_pdf_path)"
proof (intro conjI impI)
  assume "(html = None) = (html_path = None)"
  then show "fst r = Inl (ValueError
          (lit ''Faqat bittasini bering: html (string) yoki html_path (file).''))"
    by (simp add: r html_to_pdf_def throw_def)
next
  assume "html = None \<and> html_path = Some hp
          \<and> fs_mkdir env (parent (fs_resolve env output_pdf_path)) = None
          \<and> \<not> fs_exists env (fs_resolve env hp)"
  then show "fst r = Inl (FileNotFoundError (lit ''HTML topilmadi: '' @ fs_resolve env hp))"
    by (simp add: r html_to_pdf_def load_html_def throw_def)
next
  assume a: "(html = None) \<noteq> (html_path = None)
          \<and> fs_mkdir env (parent (fs_resolve env output_pdf_path)) = None
          \<and> fst (load_html env html html_path base_dir) = Inr (html_text, b)
          \<and> extra_css_path render = Some cp \<and> \<not> fs_exists env (fs_resolve env cp)"
  then have "fst (add_css env render html_text)
      = Inl (FileNotFoundError (lit ''CSS topilmadi: '' @ fs_resolve env cp))"
    by (simp add: add_css_def throw_def)
  then have "fst (bind (load_html env html html_path base_dir) (\<lambda>(html_text, base_dir').
      bind (add_css env render html_text) (k base_dir')))
      = Inl (FileNotFoundError (lit ''CSS topilmadi: '' @ fs_resolve env cp))" for k :: "path \<Rightarrow> pystr \<Rightarrow> path io"
    using a by (simp add: fst_bind_ok [where x = "(html_text, b)"] fst_bind_err)
  with a show "fst r = Inl (FileNotFoundError (lit ''CSS topilmadi: '' @ fs_resolve env cp))"
    by (cases html; cases html_path) (simp_all add: r html_to_pdf_def)
next
  assume a: "Goto u w n \<in> set (snd r) \<and> (pw_goto env = Some g \<or> pw_goto env = None \<and> pw_pdf env = Some g)
          \<and> pw_context_close env = None \<and> pw_browser_close env = None
          \<and> pw_stop env = None \<and> fs_cleanup env = None"
  then have "Goto u w n \<in> set (snd (html_to_pdf env html html_path output_pdf_path base_dir pdf render))"
    by (simp add: r)
  from html_to_pdf_reached [OF this] obtain t where
    g: "Goto u w n \<in> set (snd (render_in_tmp env (fs_resolve env output_pdf_path) t pdf render))"
    and f: "fst r = (case fst (render_in_tmp env (fs_resolve env output_pdf_path) t pdf render) of
                  Inl e \<Rightarrow> Inl e | Inr u \<Rightarrow> Inr (fs_resolve env output_pdf_path))"
    by (auto simp: r)
  from render_in_tmp_reached [OF g] a obtain tmp where
    "fst (render_in_tmp env (fs_resolve env output_pdf_path) t pdf render)
       = fst (try_block env (fs_resolve env output_pdf_path) tmp pdf render)"
    by auto
  moreover have "fst (try_block env (fs_resolve env output_pdf_path) tmp pdf render)
       = Inl (HtmlToPdfError (lit ''PDF render xatosi: '' @ g) (Raised g))"
    using a try_block_goto_fails try_block_pdf_fails by blast
  ultimately show "fst r = Inl (HtmlToPdfError (lit ''PDF render xatosi: '' @ g) (Raised g))"
    using f by simp
next
  assume "fst r = Inl (HtmlToPdfError m c)"
  then show "\<exists>g. c = Raised g \<and> m = lit ''PDF render xatosi: '' @ g
           \<and> (pw_goto env = Some g \<or> pw_pdf env = Some g)"
    unfolding r by (rule html_to_pdf_domain)
next
  assume "fst r = Inr p"
  then show "p = fs_resolve env output_pdf_path"
    unfolding r by (rule html_to_pdf_success)
qed

theorem html_to_pdf_error_kinds_witness:
  "fst (html_to_pdf demo_env None None (lit ''out.pdf'') None default_pdf default_render)
     = Inl (ValueError (lit ''Faqat bittasini bering: html (string) yoki html_path (file).''))
   \<and> fst (html_to_pdf demo_env None (Some (lit ''nope.html'')) (lit ''out.pdf'') None
        default_pdf default_render)
     = Inl (FileNotFoundError (lit ''HTML topilmadi: /work/nope.html''))
   \<and> fst (html_to_pdf demo_env (Some (lit ''<p>x</p>'')) None (lit ''out.pdf'') None default_pdf
        (default_render\<lparr>extra_css_path := Some (lit ''missing.css'')\<rparr>))
     = Inl (FileNotFoundError (lit ''CSS topilmadi: /work/missing.css''))
   \<and> fst (html_to_pdf (demo_env\<lparr>pw_goto := Some (lit ''Timeout 60000ms exceeded'')\<rparr>)
        (Some (lit ''<p>x</p>'')) None (lit ''out.pdf'') None default_pdf default_render)
     = Inl (HtmlToPdfError (lit ''PDF render xatosi: Timeout 60000ms exceeded'')
         (Raised (lit ''Timeout 60000ms exceeded'')))
   \<and> fst (html_to_pdf (demo_env\<lparr>pw_pdf := Some (lit ''Protocol error'')\<rparr>)
        (Some (lit ''<p>x</p>'')) None (lit ''out.pdf'') None default_pdf default_render)
     = Inl (HtmlToPdfError (lit ''PDF render xatosi: Protocol error'')
         (Raised (lit ''Protocol error'')))
   \<and> fst (html_to_pdf demo_env (Some (lit ''<p>x</p>'')) None (lit ''out.pdf'') None
        default_pdf default_render)
     = Inr (lit ''/work/out.pdf'')"
proof -
  let ?h = "Some (lit ''<p>x</p>'')"
  let ?o = "lit ''out.pdf''"
  let ?u = "lit ''file:///tmp/html2pdf_x/index.html''"
  let ?css = "default_render\<lparr>extra_css_path := Some (lit ''missing.css'')\<rparr>"
  let ?eg = "demo_env\<lparr>pw_goto := Some (lit ''Timeout 60000ms exceeded'')\<rparr>"
  let ?ep = "demo_env\<lparr>pw_pdf := Some (lit ''Protocol error'')\<rparr>"
  note t = html_to_pdf_error_kinds [OF refl]
  have c1: "fst (html_to_pdf demo_env None None ?o None default_pdf default_render)
     = Inl (ValueError (lit ''Faqat bittasini bering: html (string) yoki html_path (file).''))"
    by (rule mp [OF t [THEN conjunct1]]) simp
  have "fst (html_to_pdf demo_env None (Some (lit ''nope.html'')) ?o None default_pdf default_render)
     = Inl (FileNotFoundError (lit ''HTML topilmadi: '' @ fs_resolve demo_env (lit ''nope.html'')))"
    by (rule mp [OF t [THEN conjunct2, THEN conjunct1]]) (simp add: demo_env_def lit_def)
  then have c2: "fst (html_to_pdf demo_env None (Some (lit ''nope.html'')) ?o None
        default_pdf default_render)
     = Inl (FileNotFoundError (lit ''HTML topilmadi: /work/nope.html''))"
    by (simp add: demo_env_def lit_def)
  have l: "fst (load_html demo_env ?h None None) = Inr (lit ''<p>x</p>'', lit ''/work'')"
    by (simp add: io_eval)
  have "fst (html_to_pdf demo_env ?h None ?o None default_pdf ?css)
     = Inl (FileNotFoundError (lit ''CSS topilmadi: '' @ fs_resolve demo_env (lit ''missing.css'')))"
    by (rule mp [OF t [where html_text = "lit ''<p>x</p>''" and b = "lit ''/work''",
          THEN conjunct2, THEN conjunct2, THEN conjunct1]])
      (simp add: l, simp add: demo_env_def default_render_def lit_def)
  then have c3: "fst (html_to_pdf demo_env ?h None ?o None default_pdf ?css)
     = Inl (FileNotFoundError (lit ''CSS topilmadi: /work/missing.css''))"
    by (simp add: demo_env_def lit_def)
  have gg: "Goto ?u NetworkIdle 60000
      \<in> set (snd (html_to_pdf ?eg ?h None ?o None default_pdf default_render))"
    by (simp add: io_eval str_eval sub_eval)
  have "fst (html_to_pdf ?eg ?h None ?o None default_pdf default_render)
     = Inl (HtmlToPdfError (lit ''PDF render xatosi: '' @ lit ''Timeout 60000ms exceeded'')
         (Raised (lit ''Timeout 60000ms exceeded'')))"
    by (rule mp [OF t [where u = ?u and w = NetworkIdle and n = 60000,
          THEN conjunct2, THEN conjunct2, THEN conjunct2, THEN conjunct1]])
      (simp add: gg, simp add: demo_env_def)
  then have c4: "fst (html_to_pdf ?eg ?h None ?o None default_pdf default_render)
     = Inl (HtmlToPdfError (lit ''PDF render xatosi: Timeout 60000ms exceeded'')
         (Raised (lit ''Timeout 60000ms exceeded'')))"
    by (simp add: lit_def)
  have gp: "Goto ?u NetworkIdle 60000
      \<in> set (snd (html_to_pdf ?ep ?h None ?o None default_pdf default_render))"
    by (simp add: io_eval str_eval sub_eval)
  have "fst (html_to_pdf ?ep ?h None ?o None default_pdf default_render)
     = Inl (HtmlToPdfError (lit ''PDF render xatosi: '' @ lit ''Protocol error'')
         (Raised (lit ''Protocol error'')))"
    by (rule mp [OF t [where u = ?u and w = NetworkIdle and n = 60000,
          THEN conjunct2, THEN conjunct2, THEN conjunct2, THEN conjunct1]])
      (simp add: gp, simp add: demo_env_def)
  then have c5: "fst (html_to_pdf ?ep ?h None ?o None default_pdf default_render)
     = Inl (HtmlToPdfError (lit ''PDF render xatosi: Protocol error'')
         (Raised (lit ''Protocol error'')))"
    by (simp add: lit_def)
  have ok: "fst (html_to_pdf demo_env ?h None ?o None default_pdf default_render)
      = Inr (lit ''/work/out.pdf'')"
    by (simp add: io_eval str_eval sub_eval)
  from c1 c2 c3 c4 c5 ok show ?thesis
    by (intro conjI)
qed

text \<open>
  C1 as stated fails: without an HTML text and without an HTML path the call raises
  \<^verbatim>\<open>ValueError\<close>, and for a missing HTML file \<^verbatim>\<open>FileNotFoundError\<close>; neither is the
  domain error \<^verbatim>\<open>HtmlToPdfError\<close>.
\<close>

theorem html_to_pdf_single_error_counterexample:
  "fst (html_to_pdf demo_env None None (lit ''out.pdf'') None default_pdf default_render)
     = Inl (ValueError (lit ''Faqat bittasini bering: html (string) yoki html_path (file).''))
   \<and> \<not> is_HtmlToPdfError
         (ValueError (lit ''Faqat bittasini bering: html (string) yoki html_path (file).''))
   \<and> fst (html_to_pdf demo_env None (Some (lit ''nope.html'')) (lit ''out.pdf'') None
        default_pdf default_render)
     = Inl (FileNotFoundError (lit ''HTML topilmadi: /work/nope.html''))
   \<and> \<not> is_HtmlToPdfError (FileNotFoundError (lit ''HTML topilmadi: /work/nope.html''))"
  by (simp add: io_eval lit_def)

section \<open>Teardown\<close>

text \<open>
  C6: the context and the browser are closed in the \<^verbatim>\<open>finally\<close> clause of the \<^verbatim>\<open>try\<close>
  statement, which starts at the navigation. When \<^verbatim>\<open>page.emulate_media\<close> raises, or
  \<^verbatim>\<open>page.route\<close> with the network off, the page has been acquired and the function is
  left with neither \<^verbatim>\<open>context.close()\<close> nor \<^verbatim>\<open>browser.close()\<close> called; and when
  \<^verbatim>\<open>context.close()\<close> raises in the \<^verbatim>\<open>finally\<close> clause, \<^verbatim>\<open>browser.close()\<close> is not
  called.
\<close>

theorem teardown_skipped:
  "render_page (demo_env\<lparr>pw_emulate_media := Some (lit ''Target closed'')\<rparr>)
       (lit ''/work/out.pdf'') (lit ''/tmp/html2pdf_x/index.html'') default_pdf default_render
     = (Inl (Raised (lit ''Target closed'')), [Launch, NewContext, NewPage, EmulateMedia Print])
   \<and> render_page (demo_env\<lparr>pw_route := Some (lit ''Target closed'')\<rparr>)
       (lit ''/work/out.pdf'') (lit ''/tmp/html2pdf_x/index.html'') default_pdf
       (default_render\<lparr>allow_network := False\<rparr>)
     = (Inl (Raised (lit ''Target closed'')), [Launch, NewContext, NewPage, Route])
   \<and> try_block (demo_env\<lparr>pw_goto := Some (lit ''Timeout''),
                    pw_context_close := Some (lit ''Target closed'')\<rparr>)
       (lit ''/work/out.pdf'') (lit ''/tmp/html2pdf_x/index.html'') default_pdf default_render
     = (Inl (Raised (lit ''Target closed'')),
        [Goto (lit ''file:///tmp/html2pdf_x/index.html'') NetworkIdle 60000, ContextClose])
   \<and> ContextClose \<notin> set (snd (html_to_pdf
         (demo_env\<lparr>pw_emulate_media := Some (lit ''Target closed'')\<rparr>)
         (Some (lit ''<p>x</p>'')) None (lit ''out.pdf'') None default_pdf default_render))
   \<and> BrowserClose \<notin> set (snd (html_to_pdf
         (demo_env\<lparr>pw_emulate_media := Some (lit ''Target closed'')\<rparr>)
         (Some (lit ''<p>x</p>'')) None (lit ''out.pdf'') None default_pdf default_render))
   \<and> NewPage \<in> set (snd (html_to_pdf
         (demo_env\<lparr>pw_emulate_media := Some (lit ''Target closed'')\<rparr>)
         (Some (lit ''<p>x</p>'')) None (lit ''out.pdf'') None default_pdf default_render))"
  by (simp add: io_eval str_eval sub_eval)

text \<open>
  What the \<^verbatim>\<open>finally\<close> clause does give: however the \<^verbatim>\<open>try\<close> statement ends,
  \<^verbatim>\<open>context.close()\<close> is called, and \<^verbatim>\<open>browser.close()\<close> too when it returns.
\<close>

lemma try_block_teardown:
  "ContextClose \<in> set (snd (try_block env out tmp pdf render))
   \<and> (pw_context_close env = None \<longrightarrow> BrowserClose \<in> set (snd (try_block env out tmp pdf render)))"
  by (cases "pw_context_close env"; cases "pw_browser_close env")
    (simp_all add: try_block_def navigate_def finally_do_def call_def)

section \<open>The calls on the page\<close>

text \<open>
  The calls on the page and its requests, taken out of the calls of a conversion. They are
  none, or \<^verbatim>\<open>page.route\<close> and \<^verbatim>\<open>page.emulate_media\<close> up to the one that raised, or, in
  a conversion that reaches the \<^verbatim>\<open>try\<close> statement, \<^verbatim>\<open>page.route\<close> when the network
  is off, \<^verbatim>\<open>page.emulate_media\<close>, the navigation with the requests of the page and,
  when the navigation returns, the font script and \<^verbatim>\<open>page.pdf\<close>.
\<close>

lemma filter_bind:
  "filter P (snd (bind m f))
     = filter P (snd m) @ (case fst m of Inl e \<Rightarrow> [] | Inr x \<Rightarrow> filter P (snd (f x)))"
  by (simp add: bind_def split: sum.splits)

lemma filter_finally:
  "filter P (snd (finally_do body fin)) = filter P (snd body) @ filter P (snd fin)"
  by (simp add: finally_do_def split: sum.splits)

lemma page_event_requests:
  "filter page_event (map (\<lambda>u. Request u (g u)) us) = map (\<lambda>u. Request u (g u)) us"
  by (induction us) simp_all




lemma page_events_try_block:
  "filter page_event (snd (try_block env out tmp pdf render))
     = Goto (as_uri env tmp) (wait_until render) (timeout_ms render)
       # map (\<lambda>u. Request u (answer (installed_handler render) u)) (pw_requests env)
       @ (if pw_goto env = None then [Evaluate, Pdf (pdf_kwargs out pdf)] else [])"
  by (cases "pw_goto env"; cases "pw_evaluate env"; cases "pw_pdf env";
      cases "pw_context_close env"; cases "pw_browser_close env")
    (simp_all add: try_block_def navigate_def finally_do_def except_do_def call_def throw_def
      ret_def bind_def page_event_requests)

lemma page_events_render_page:
  "filter page_event (snd (render_page env out tmp pdf render))
     \<in> {[], [Route], [EmulateMedia (emulate_media render)],
         [Route, EmulateMedia (emulate_media render)]}
   \<or> filter page_event (snd (render_page env out tmp pdf render))
       = (if allow_network render then [] else [Route])
         @ EmulateMedia (emulate_media render)
         # filter page_event (snd (try_block env out tmp pdf render))"
  by (simp add: render_page_def filter_bind call_def ret_def split: option.splits)

lemma page_events_render_in_tmp:
  "filter page_event (snd (render_in_tmp env out html_text pdf render))
     \<in> {[], [Route], [EmulateMedia (emulate_media render)],
         [Route, EmulateMedia (emulate_media render)]}
   \<or> (\<exists>tmp. filter page_event (snd (render_in_tmp env out html_text pdf render))
         = (if allow_network render then [] else [Route])
           @ EmulateMedia (emulate_media render)
           # filter page_event (snd (try_block env out tmp pdf render)))"
proof (cases "fs_mkdtemp env")
  case (Inl msg)
  then show ?thesis
    by (simp add: render_in_tmp_def call_val_def)
next
  case (Inr t)
  let ?tmp = "joinpath t (lit ''index.html'')"
  have "filter page_event (snd (render_in_tmp env out html_text pdf render)) = []
     \<or> filter page_event (snd (render_in_tmp env out html_text pdf render))
         = filter page_event (snd (render_page env out ?tmp pdf render))"
    using Inr
    by (simp add: render_in_tmp_def filter_bind filter_finally call_def call_val_def
        split: option.splits)
  with page_events_render_page [of env out ?tmp pdf render] show ?thesis
    by (metis insertI1)
qed

lemma page_events_load_html: "filter page_event (snd (load_html env html html_path base_dir)) = []"
  by (auto simp: load_html_def throw_def ret_def call_val_def bind_def
      split: option.splits if_splits sum.splits)

lemma page_events_add_css: "filter page_event (snd (add_css env render html_text)) = []"
  by (auto simp: add_css_def throw_def ret_def call_val_def bind_def lift_def
      split: option.splits if_splits sum.splits)

lemma page_events_add_base: "filter page_event (snd (add_base env render base_dir html_text)) = []"
  by (auto simp: add_base_def ret_def lift_def call_val_def bind_def split: if_splits sum.splits)

lemma page_events_html_to_pdf:
  "filter page_event (snd (html_to_pdf env html html_path out base_dir pdf render))
     \<in> {[], [Route], [EmulateMedia (emulate_media render)],
         [Route, EmulateMedia (emulate_media render)]}
   \<or> (\<exists>tmp. filter page_event (snd (html_to_pdf env html html_path out base_dir pdf render))
         = (if allow_network render then [] else [Route])
           @ EmulateMedia (emulate_media render)
           # filter page_event (snd (try_block env (fs_resolve env out) tmp pdf render)))"
proof (cases "(html = None) = (html_path = None)")
  case True
  then show ?thesis
    by (simp add: html_to_pdf_def throw_def)
next
  case False
  have "filter page_event (snd (html_to_pdf env html html_path out base_dir pdf render)) = []
     \<or> (\<exists>h. filter page_event (snd (html_to_pdf env html html_path out base_dir pdf render))
         = filter page_event (snd (render_in_tmp env (fs_resolve env out) h pdf render)))"
    using False
    by (auto simp: html_to_pdf_def filter_bind ret_def page_events_load_html page_events_add_css
        page_events_add_base call_def call_val_def split: sum.splits option.splits)
  with page_events_render_in_tmp show ?thesis
    by (metis insertI1)
qed

lemma page_events_reached:
  assumes "ev \<in> set (snd (html_to_pdf env html html_path out base_dir pdf render))"
    and "ev = Goto u w n \<or> ev = Request x y \<or> ev = Evaluate \<or> ev = Pdf kw"
  shows "\<exists>tmp. filter page_event (snd (html_to_pdf env html html_path out base_dir pdf render))
           = (if allow_network render then [] else [Route])
             @ EmulateMedia (emulate_media render)
             # Goto (as_uri env tmp) (wait_until render) (timeout_ms render)
             # map (\<lambda>u. Request u (answer (installed_handler render) u)) (pw_requests env)
             @ (if pw_goto env = None
                then [Evaluate, Pdf (pdf_kwargs (fs_resolve env out) pdf)] else [])"
proof -
  define F where
    "F = filter page_event (snd (html_to_pdf env html html_path out base_dir pdf render))"
  from assms have "ev \<in> set F"
    unfolding F_def by auto
  moreover from assms(2) have "ev \<noteq> Route" and "ev \<noteq> EmulateMedia (emulate_media render)"
    by auto
  ultimately have "F \<notin> {[], [Route], [EmulateMedia (emulate_media render)],
         [Route, EmulateMedia (emulate_media render)]}"
    by auto
  with page_events_html_to_pdf [of env html html_path out base_dir pdf render]
  show ?thesis
    unfolding F_def by (simp only: page_events_try_block) blast
qed











lemma pdf_call_arguments:
  assumes "Pdf kw \<in> set (snd (html_to_pdf env html html_path out base_dir pdf render))"
  shows "kw = pdf_kwargs (fs_resolve env out) pdf"
proof -
  define tr where "tr = snd (html_to_pdf env html html_path out base_dir pdf render)"
  from page_events_reached [OF assms, of u w n x y kw] obtain tmp where
    F: "filter page_event tr
           = (if allow_network render then [] else [Route])
             @ EmulateMedia (emulate_media render)
             # Goto (as_uri env tmp) (wait_until render) (timeout_ms render)
             # map (\<lambda>u. Request u (answer (installed_handler render) u)) (pw_requests env)
             @ (if pw_goto env = None
                then [Evaluate, Pdf (pdf_kwargs (fs_resolve env out) pdf)] else [])"
    unfolding tr_def by blast
  from assms have "Pdf kw \<in> set (filter page_event tr)"
    by (simp add: tr_def)
  then show ?thesis
    unfolding F by (auto split: if_splits)
qed

lemma run_calls_main:
  "run_calls (main env a)
     = (case parse_margin (arg_margin a) of
          None \<Rightarrow> []
        | Some (t, r, b, l) \<Rightarrow>
            snd (html_to_pdf env None (Some (arg_input a)) (arg_output a)
                   (opt_path (arg_base_dir a)) (pdf_opts a t r b l) (render_opts a)))"
  by (simp add: main_def runner_def split: option.splits sum.splits)

lemmas cli_eval = main_def runner_def parse_margin_def strip_def pdf_opts_def render_opts_def
  opt_path_def demo_args_def

section \<open>The request policy\<close>



section \<open>The margin argument\<close>

lemma parse_margin_four:
  "split_on 44 m = [t, r, b, l] \<Longrightarrow> parse_margin m = Some (strip t, strip r, strip b, strip l)"
  by (simp add: parse_margin_def)

lemma parse_margin_other: "length (split_on 44 m) \<noteq> 4 \<Longrightarrow> parse_margin m = None"
proof -
  assume "length (split_on 44 m) \<noteq> 4"
  then have "length (map strip (split_on 44 m)) \<noteq> 4"
    by simp
  then show ?thesis
    unfolding parse_margin_def by (auto split: list.splits)
qed

lemma margin_kwargs:
  "map_of (pdf_kwargs out (pdf_opts a t r b l)) ''margin''
     = Some (KDict [(''top'', KStr t), (''right'', KStr r), (''bottom'', KStr b),
                    (''left'', KStr l)])"
  by (simp add: pdf_kwargs_def pdf_opts_def Let_def)

text \<open>
  C8: a margin argument that does not split at its commas into exactly four parts makes
  \<^verbatim>\<open>main\<close> print the usage message and exit with status 2 without any call on the
  environment, so nothing is rendered. With an argument of four parts \<^verbatim>\<open>main\<close> runs the
  conversion, and does not end in that exit: the four parts, without the white space
  around them, are the top, right, bottom and left margins of the PDF options, in this
  order, and a \<^verbatim>\<open>page.pdf\<close> call of the run has exactly these four as its margin. For
  \<^verbatim>\<open>16mm,14mm,16mm,14mm\<close> they are 16mm, 14mm, 16mm and 14mm.
\<close>

theorem margin_argument:
  "(length (split_on 44 (arg_margin a)) \<noteq> 4 \<longrightarrow>
      main env a = \<lparr>run_end = SystemExit 2, run_printed = [usage_message], run_logged = [],
                    run_calls = []\<rparr>)
   \<and> (split_on 44 (arg_margin a) = [t, r, b, l] \<longrightarrow>
        main env a
          = runner (html_to_pdf env None (Some (arg_input a)) (arg_output a)
                      (opt_path (arg_base_dir a))
                      (pdf_opts a (strip t) (strip r) (strip b) (strip l)) (render_opts a))
        \<and> (Pdf kw \<in> set (run_calls (main env a)) \<longrightarrow>
             map_of kw ''margin''
               = Some (KDict [(''top'', KStr (strip t)), (''right'', KStr (strip r)),
                              (''bottom'', KStr (strip b)), (''left'', KStr (strip l))])))
   \<and> (arg_margin a = lit ''16mm,14mm,16mm,14mm'' \<longrightarrow>
        main env a
          = runner (html_to_pdf env None (Some (arg_input a)) (arg_output a)
                      (opt_path (arg_base_dir a))
                      (pdf_opts a (lit ''16mm'') (lit ''14mm'') (lit ''16mm'') (lit ''14mm''))
                      (render_opts a))
        \<and> (Pdf kw \<in> set (run_calls (main env a)) \<longrightarrow>
             map_of kw ''margin''
               = Some (KDict [(''top'', KStr (lit ''16mm'')), (''right'', KStr (lit ''14mm'')),
                              (''bottom'', KStr (lit ''16mm'')), (''left'', KStr (lit ''14mm''))])))
   \<and> margin_top (pdf_opts a top' right' bottom' left') = top'
   \<and> margin_right (pdf_opts a top' right' bottom' left') = right'
   \<and> margin_bottom (pdf_opts a top' right' bottom' left') = bottom'
   \<and> margin_left (pdf_opts a top' right' bottom' left') = left'
   \<and> run_end (runner x) \<noteq> SystemExit 2
   \<and> run_calls (runner x) = snd x"
proof -
  have bad: "length (split_on 44 (arg_margin a)) \<noteq> 4 \<longrightarrow>
      main env a = \<lparr>run_end = SystemExit 2, run_printed = [usage_message], run_logged = [],
                    run_calls = []\<rparr>"
    by (simp add: main_def parse_margin_other)
  have four: "\<And>t r b l. split_on 44 (arg_margin a) = [t, r, b, l] \<Longrightarrow>
        main env a
          = runner (html_to_pdf env None (Some (arg_input a)) (arg_output a)
                      (opt_path (arg_base_dir a))
                      (pdf_opts a (strip t) (strip r) (strip b) (strip l)) (render_opts a))
        \<and> (Pdf kw \<in> set (run_calls (main env a)) \<longrightarrow>
             map_of kw ''margin''
               = Some (KDict [(''top'', KStr (strip t)), (''right'', KStr (strip r)),
                              (''bottom'', KStr (strip b)), (''left'', KStr (strip l))]))"
  proof -
    fix t r b l
    assume s: "split_on 44 (arg_margin a) = [t, r, b, l]"
    have m: "main env a
          = runner (html_to_pdf env None (Some (arg_input a)) (arg_output a)
                      (opt_path (arg_base_dir a))
                      (pdf_opts a (strip t) (strip r) (strip b) (strip l)) (render_opts a))"
      by (simp add: main_def parse_margin_four [OF s])
    have "Pdf kw \<in> set (run_calls (main env a)) \<longrightarrow>
             map_of kw ''margin''
               = Some (KDict [(''top'', KStr (strip t)), (''right'', KStr (strip r)),
                              (''bottom'', KStr (strip b)), (''left'', KStr (strip l))])"
    proof
      assume "Pdf kw \<in> set (run_calls (main env a))"
      then have "Pdf kw \<in> set (snd (html_to_pdf env None (Some (arg_input a)) (arg_output a)
                      (opt_path (arg_base_dir a))
                      (pdf_opts a (strip t) (strip r) (strip b) (strip l)) (render_opts a)))"
        by (simp add: run_calls_main parse_margin_four [OF s])
      then have "kw = pdf_kwargs (fs_resolve env (arg_output a))
          (pdf_opts a (strip t) (strip r) (strip b) (strip l))"
        by (rule pdf_call_arguments)
      then show "map_of kw ''margin''
               = Some (KDict [(''top'', KStr (strip t)), (''right'', KStr (strip r)),
                              (''bottom'', KStr (strip b)), (''left'', KStr (strip l))])"
        by (simp only: margin_kwargs)
    qed
    with m show "main env a
          = runner (html_to_pdf env None (Some (arg_input a)) (arg_output a)
                      (opt_path (arg_base_dir a))
                      (pdf_opts a (strip t) (strip r) (strip b) (strip l)) (render_opts a))
        \<and> (Pdf kw \<in> set (run_calls (main env a)) \<longrightarrow>
             map_of kw ''margin''
               = Some (KDict [(''top'', KStr (strip t)), (''right'', KStr (strip r)),
                              (''bottom'', KStr (strip b)), (''left'', KStr (strip l))]))"
      by (rule conjI)
  qed
  have dflt: "arg_margin a = lit ''16mm,14mm,16mm,14mm'' \<longrightarrow>
        main env a
          = runner (html_to_pdf env None (Some (arg_input a)) (arg_output a)
                      (opt_path (arg_base_dir a))
                      (pdf_opts a (lit ''16mm'') (lit ''14mm'') (lit ''16mm'') (lit ''14mm''))
                      (render_opts a))
        \<and> (Pdf kw \<in> set (run_calls (main env a)) \<longrightarrow>
             map_of kw ''margin''
               = Some (KDict [(''top'', KStr (lit ''16mm'')), (''right'', KStr (lit ''14mm'')),
                              (''bottom'', KStr (lit ''16mm'')), (''left'', KStr (lit ''14mm''))]))"
  proof
    assume d: "arg_margin a = lit ''16mm,14mm,16mm,14mm''"
    have s: "split_on 44 (arg_margin a) = [lit ''16mm'', lit ''14mm'', lit ''16mm'', lit ''14mm'']"
      unfolding d by (simp add: lit_def)
    have st: "strip (lit ''16mm'') = lit ''16mm''" "strip (lit ''14mm'') = lit ''14mm''"
      by (simp_all add: strip_def lit_def is_space_def)
    show "main env a
          = runner (html_to_pdf env None (Some (arg_input a)) (arg_output a)
                      (opt_path (arg_base_dir a))
                      (pdf_opts a (lit ''16mm'') (lit ''14mm'') (lit ''16mm'') (lit ''14mm''))
                      (render_opts a))
        \<and> (Pdf kw \<in> set (run_calls (main env a)) \<longrightarrow>
             map_of kw ''margin''
               = Some (KDict [(''top'', KStr (lit ''16mm'')), (''right'', KStr (lit ''14mm'')),
                              (''bottom'', KStr (lit ''16mm'')), (''left'', KStr (lit ''14mm''))]))"
      using four [OF s] unfolding st .
  qed
  have p: "margin_top (pdf_opts a top' right' bottom' left') = top'"
    "margin_right (pdf_opts a top' right' bottom' left') = right'"
    "margin_bottom (pdf_opts a top' right' bottom' left') = bottom'"
    "margin_left (pdf_opts a top' right' bottom' left') = left'"
    by (simp_all add: pdf_opts_def Let_def)
  have r1: "run_end (runner x) \<noteq> SystemExit 2"
    by (simp add: runner_def split: sum.splits)
  have r2: "run_calls (runner x) = snd x"
    by (simp add: runner_def split: sum.splits)
  from four [of t r b l] have four': "split_on 44 (arg_margin a) = [t, r, b, l] \<longrightarrow>
        main env a
          = runner (html_to_pdf env None (Some (arg_input a)) (arg_output a)
                      (opt_path (arg_base_dir a))
                      (pdf_opts a (strip t) (strip r) (strip b) (strip l)) (render_opts a))
        \<and> (Pdf kw \<in> set (run_calls (main env a)) \<longrightarrow>
             map_of kw ''margin''
               = Some (KDict [(''top'', KStr (strip t)), (''right'', KStr (strip r)),
                              (''bottom'', KStr (strip b)), (''left'', KStr (strip l))]))"
    by (rule impI)
  from bad four' dflt p r1 r2 show ?thesis
    by (intro conjI)
qed

theorem margin_argument_witness:
  "main demo_env (demo_args\<lparr>arg_margin := lit ''bad''\<rparr>)
     = \<lparr>run_end = SystemExit 2, run_printed = [usage_message], run_logged = [], run_calls = []\<rparr>
   \<and> Pdf (pdf_kwargs (lit ''/work/out.pdf'')
        (pdf_opts (demo_args\<lparr>arg_margin := lit ''10mm, 20mm,30mm ,40mm''\<rparr>)
           (lit ''10mm'') (lit ''20mm'') (lit ''30mm'') (lit ''40mm'')))
       \<in> set (run_calls (main demo_env (demo_args\<lparr>arg_margin := lit ''10mm, 20mm,30mm ,40mm''\<rparr>)))
   \<and> map_of (pdf_kwargs (lit ''/work/out.pdf'')
        (pdf_opts (demo_args\<lparr>arg_margin := lit ''10mm, 20mm,30mm ,40mm''\<rparr>)
           (lit ''10mm'') (lit ''20mm'') (lit ''30mm'') (lit ''40mm''))) ''margin''
       = Some (KDict [(''top'', KStr (lit ''10mm'')), (''right'', KStr (lit ''20mm'')),
                      (''bottom'', KStr (lit ''30mm'')), (''left'', KStr (lit ''40mm''))])
   \<and> Pdf (pdf_kwargs (lit ''/work/out.pdf'')
        (pdf_opts demo_args (lit ''16mm'') (lit ''14mm'') (lit ''16mm'') (lit ''14mm'')))
       \<in> set (run_calls (main demo_env demo_args))
   \<and> map_of (pdf_kwargs (lit ''/work/out.pdf'')
        (pdf_opts demo_args (lit ''16mm'') (lit ''14mm'') (lit ''16mm'') (lit ''14mm''))) ''margin''
       = Some (KDict [(''top'', KStr (lit ''16mm'')), (''right'', KStr (lit ''14mm'')),
                      (''bottom'', KStr (lit ''16mm'')), (''left'', KStr (lit ''14mm''))])"
proof -
  let ?bad = "demo_args\<lparr>arg_margin := lit ''bad''\<rparr>"
  let ?sp = "demo_args\<lparr>arg_margin := lit ''10mm, 20mm,30mm ,40mm''\<rparr>"
  let ?k = "pdf_kwargs (lit ''/work/out.pdf'')
        (pdf_opts ?sp (lit ''10mm'') (lit ''20mm'') (lit ''30mm'') (lit ''40mm''))"
  let ?d = "pdf_kwargs (lit ''/work/out.pdf'')
        (pdf_opts demo_args (lit ''16mm'') (lit ''14mm'') (lit ''16mm'') (lit ''14mm''))"
  have c1: "main demo_env ?bad
     = \<lparr>run_end = SystemExit 2, run_printed = [usage_message], run_logged = [], run_calls = []\<rparr>"
    by (rule mp [OF margin_argument [THEN conjunct1]]) (simp add: lit_def)
  have s: "split_on 44 (arg_margin ?sp) = [lit ''10mm'', lit '' 20mm'', lit ''30mm '', lit ''40mm'']"
    by (simp add: lit_def)
  have st: "strip (lit ''10mm'') = lit ''10mm''" "strip (lit '' 20mm'') = lit ''20mm''"
    "strip (lit ''30mm '') = lit ''30mm''" "strip (lit ''40mm'') = lit ''40mm''"
    by (simp_all add: strip_def lit_def is_space_def)
  have p: "Pdf ?k \<in> set (run_calls (main demo_env ?sp))"
    by (simp add: cli_eval io_eval str_eval sub_eval)
  have "map_of ?k ''margin''
      = Some (KDict [(''top'', KStr (strip (lit ''10mm''))), (''right'', KStr (strip (lit '' 20mm''))),
                     (''bottom'', KStr (strip (lit ''30mm ''))), (''left'', KStr (strip (lit ''40mm'')))])"
    by (rule mp [OF mp [OF margin_argument [where env = demo_env,
            THEN conjunct2, THEN conjunct1], THEN conjunct2]]) (rule s, rule p)
  then have c2: "map_of ?k ''margin''
       = Some (KDict [(''top'', KStr (lit ''10mm'')), (''right'', KStr (lit ''20mm'')),
                      (''bottom'', KStr (lit ''30mm'')), (''left'', KStr (lit ''40mm''))])"
    unfolding st .
  have q: "Pdf ?d \<in> set (run_calls (main demo_env demo_args))"
    by (simp add: cli_eval io_eval str_eval sub_eval)
  have dm: "arg_margin demo_args = lit ''16mm,14mm,16mm,14mm''"
    by (simp add: demo_args_def)
  have c3: "map_of ?d ''margin''
       = Some (KDict [(''top'', KStr (lit ''16mm'')), (''right'', KStr (lit ''14mm'')),
                      (''bottom'', KStr (lit ''16mm'')), (''left'', KStr (lit ''14mm''))])"
    by (rule mp [OF mp [OF margin_argument [where env = demo_env,
            THEN conjunct2, THEN conjunct2, THEN conjunct1], THEN conjunct2]]) (rule dm, rule q)
  from c1 p c2 q c3 show ?thesis
    by (intro conjI)
qed

end
